theory Spec2Isabelle
  imports Main "HOL-Library.AList"
begin

section \<open>Data model of the repository import hook\<close>

text \<open>
  The development embeds \<^verbatim>\<open>src/lib/hooks/useImportRepo.svelte.ts\<close>: the batched publisher,
  the identity bridger, the profile manager, the three streaming pipelines and the
  orchestrator \<^verbatim>\<open>importRepository\<close>.

  Conventions of the embedding.
  \<^item> A JavaScript \<^verbatim>\<open>Map\<close> is an association list kept in insertion order; \<^verbatim>\<open>Map.set\<close> is
    \<^const>\<open>AList.update\<close> (an existing key keeps its place, a new key goes last) and
    \<^verbatim>\<open>Map.get\<close> is \<^const>\<open>map_of\<close>.
  \<^item> Everything imported from \<^verbatim>\<open>@nostr-git/core\<close> and \<^verbatim>\<open>nostr-tools\<close> (URL parser, provider
    API, converters, signer, key derivation, bech32 decoder) and every host callback is
    a parameter: a field of the records \<open>core\<close>, \<open>api\<close> and \<open>host\<close>.
  \<^item> A call that leaves the module (host callback, provider request, converter call,
    timer) is appended to the \<open>trace\<close> of the run state, in the order the code makes it.
  \<^item> A thrown error is the value \<open>Inl e\<close>; a \<^verbatim>\<open>while (true)\<close> loop is given fuel, and
    running out of fuel is the value \<open>None\<close>.
\<close>

record EventTemplate =
  created_at :: int
  kind :: int
  tags :: "string list list"
  content :: string

record NostrEvent =
  ev_id :: string
  ev_pubkey :: string
  ev_created_at :: int
  ev_kind :: int
  ev_tags :: "string list list"
  ev_content :: string
  ev_sig :: string

record Keypair =
  privkey :: string
  pubkey :: string

record PlatformUserProfile =
  pp_privkey :: string
  pp_pubkey :: string
  pp_profileEvent :: NostrEvent

record Author =
  login :: string
  avatarUrl :: "string option"

text \<open>
  Provider payloads. Only the members the hook itself reads are named; the rest of a
  payload travels in \<open>*_payload\<close> to the converters. \<open>*_createdAt\<close> is the value of
  \<^verbatim>\<open>new Date(x.createdAt)\<close> in milliseconds, \<open>None\<close> for an invalid date (every
  comparison with it is false, as with \<^verbatim>\<open>NaN\<close>).
\<close>

record GitIssue =
  issue_number :: nat
  issue_author :: Author
  issue_createdAt :: "int option"
  issue_state :: string
  issue_closedAt :: "string option"
  issue_payload :: string

record GitPullRequest =
  pr_number :: nat
  pr_author :: Author
  pr_createdAt :: "int option"
  pr_payload :: string

record GitCommit =
  sha :: string

record GitComment =
  comment_id :: string
  comment_author :: Author
  comment_createdAt :: "int option"
  comment_payload :: string

record BulkComment =
  bulk_comment :: GitComment
  issueNumber :: nat
  isPullRequest :: bool

record RepoMetadata =
  repo_ref :: nat
  fullName :: string
  repo_name :: string

record TokenValidation =
  valid :: bool
  hasRead :: bool
  validation_error :: "string option"

record Ownership =
  ownership_repo :: "RepoMetadata option"
  isOwner :: bool

record PublishResult =
  ok :: bool
  publish_error :: "string option"

record ParsedUrl =
  provider :: string
  owner :: string
  repo :: string

record Gist =
  gist_owner_login :: "string option"
  gist_files :: "string option list option"

record GistResponse =
  resp_ok :: bool
  resp_json :: "Gist option"

record ConvertedItem =
  ci_event :: EventTemplate
  ci_privkey :: string

record ConvertedComment =
  cc_event :: EventTemplate
  cc_privkey :: string
  platformCommentId :: string

record ImportConfig =
  mirrorIssues :: bool
  mirrorPullRequests :: bool
  mirrorComments :: bool
  sinceDate :: "int option"
  relays :: "string list option"
  relayBatchSize :: "int option"
  relayBatchDelay :: "int option"
  forkRepo :: bool
  forkName :: "string option"

type_synonym 'a thrown = "string + 'a"

record api =
  listIssues :: "string \<Rightarrow> string \<Rightarrow> nat \<Rightarrow> nat \<Rightarrow> int option \<Rightarrow> GitIssue list thrown"
  listPullRequests :: "string \<Rightarrow> string \<Rightarrow> nat \<Rightarrow> nat \<Rightarrow> GitPullRequest list thrown"
  listPullRequestCommits ::
    "(string \<Rightarrow> string \<Rightarrow> nat \<Rightarrow> nat \<Rightarrow> nat \<Rightarrow> GitCommit list thrown) option"
  listAllIssueComments ::
    "(string \<Rightarrow> string \<Rightarrow> nat \<Rightarrow> nat \<Rightarrow> int option \<Rightarrow> BulkComment list thrown) option"
  listIssueComments ::
    "string \<Rightarrow> string \<Rightarrow> nat \<Rightarrow> nat \<Rightarrow> nat \<Rightarrow> int option \<Rightarrow> GitComment list thrown"
  listPullRequestComments ::
    "string \<Rightarrow> string \<Rightarrow> nat \<Rightarrow> nat \<Rightarrow> nat \<Rightarrow> int option \<Rightarrow> GitComment list thrown"
  forkRepoApi :: "string \<Rightarrow> string \<Rightarrow> string \<Rightarrow> RepoMetadata thrown"
  getRepo :: "string \<Rightarrow> string \<Rightarrow> RepoMetadata option thrown"

type_synonym profiles = "(string \<times> Keypair) list"

record core =
  parseRepoUrl :: "string \<Rightarrow> ParsedUrl thrown"
  getGitServiceApiFromUrl :: "string \<Rightarrow> string \<Rightarrow> api thrown"
  validateTokenPermissions :: "api \<Rightarrow> string \<Rightarrow> string \<Rightarrow> TokenValidation thrown"
  checkRepoOwnership :: "api \<Rightarrow> string \<Rightarrow> string \<Rightarrow> Ownership thrown"
  generatePlatformUserProfile :: "string \<Rightarrow> string \<Rightarrow> PlatformUserProfile"
  getProfileMapKey :: "string \<Rightarrow> string \<Rightarrow> string"
  convertRepoToNostrEvent :: "RepoMetadata \<Rightarrow> string list \<Rightarrow> string \<Rightarrow> int \<Rightarrow> EventTemplate"
  convertRepoToStateEvent :: "RepoMetadata \<Rightarrow> int \<Rightarrow> EventTemplate"
  convertIssuesToNostrEvents ::
    "GitIssue list \<Rightarrow> string \<Rightarrow> string \<Rightarrow> profiles \<Rightarrow> int \<Rightarrow> int \<Rightarrow> ConvertedItem list"
  convertIssueStatusesToEvents ::
    "string \<Rightarrow> string \<Rightarrow> string option \<Rightarrow> string \<Rightarrow> string \<Rightarrow> int \<Rightarrow> int \<Rightarrow> EventTemplate list"
  convertCommentsToNostrEvents ::
    "GitComment list \<Rightarrow> string \<Rightarrow> string \<Rightarrow> profiles \<Rightarrow> (string \<times> string) list \<Rightarrow> int \<Rightarrow> int
       \<Rightarrow> ConvertedComment list"
  convertPullRequestsToNostrEvents ::
    "GitPullRequest list \<Rightarrow> string \<Rightarrow> string \<Rightarrow> profiles \<Rightarrow> int \<Rightarrow> int
       \<Rightarrow> (nat \<times> string list) option \<Rightarrow> ConvertedItem list"
  signEvent :: "EventTemplate \<Rightarrow> string \<Rightarrow> NostrEvent"
  nip19_decode :: "string \<Rightarrow> (string \<times> string) thrown"

record EventIO =
  io_publishEvent :: "EventTemplate \<Rightarrow> PublishResult thrown"
  io_fetchEvents :: "(string \<Rightarrow> NostrEvent list thrown) option"

text \<open>
  What calling an asynchronous host callback does: it returns a promise that is fulfilled
  or rejected, or it throws before it returns one. Awaiting the call makes no difference
  between the last two; handing the call to \<^verbatim>\<open>Promise.allSettled\<close> does, because a call that
  throws never yields the promise to settle.
\<close>

datatype 'a called = Fulfils 'a | Rejects string | ThrowsNow string

definition awaited :: "'a called \<Rightarrow> 'a thrown" where
  "awaited r = (case r of Fulfils v \<Rightarrow> Inr v | Rejects msg \<Rightarrow> Inl msg | ThrowsNow msg \<Rightarrow> Inl msg)"

text \<open>
  The host: the members of \<^verbatim>\<open>UseImportRepoOptions\<close>, the library, and the world the run
  meets. \<open>abortAfter = Some n\<close> says that \<^verbatim>\<open>abortImport\<close> is called once \<open>n\<close> checkpoints
  (\<^verbatim>\<open>throwIfAborted\<close> calls) have passed; \<open>now\<close> is \<^verbatim>\<open>Math.floor(Date.now() / 1000)\<close>;
  \<open>fetchGist\<close> is the global \<^verbatim>\<open>fetch\<close> on the gist URL. \<open>onFetchEvents\<close> and
  \<open>io_fetchEvents\<close> are applied to the identity of the one filter the hook builds.
\<close>

record host =
  eventIO :: "EventIO option"
  onFetchEvents :: "(string \<Rightarrow> NostrEvent list thrown) option"
  onSignEvent :: "(EventTemplate \<Rightarrow> NostrEvent thrown) option"
  onPublishEvent :: "(NostrEvent \<Rightarrow> unit called) option"
  userPubkey :: string
  lib :: core
  abortAfter :: "nat option"
  now :: int
  fetchGist :: "string \<Rightarrow> GistResponse thrown"

text \<open>The members of \<^verbatim>\<open>ImportContext\<close> that never change once set up.\<close>

record env =
  host :: host
  api :: api
  platform :: string
  parsed :: ParsedUrl
  config :: ImportConfig
  batchSize :: int
  batchDelay :: int

datatype error =
    ImportAborted
  | ImportInProgress
  | SignerRequired
  | TokenRequired string
  | TokenValidationFailed string
  | NoReadPermission
  | RepoInfoMissing
  | RepoMetadataMissing
  | ForkRequired
  | RepoAccessFailed
  | RepoMetadataFetchFailed
  | RepoMetadataNullAfterSetup
  | RepoMetadataUnexpectedlyNull
  | RepoMetadataUnavailable
  | RelayRequired
  | EventIOCannotSignRepoEvents
  | SignCallbackRequired
  | PublishCallbackRequired
  | PublishCallbackMissing
  | StatusPublishFailed nat string
  | NoSigningMethod
  | RepoMetadataLost
  | External string

datatype step =
    ParsingUrl
  | Connecting string
  | ValidatingToken
  | CheckingOwnership
  | CreatingFork
  | ForkCreated string
  | FetchingMetadata
  | FetchingIssues
  | PublishingIssues nat
  | FetchingPullRequests
  | PublishingPullRequests nat
  | FetchingComments
  | PublishingComments nat
  | ConvertingRepo
  | PublishingRepoEvents
  | PublishingProfiles nat
  | PublishingProfile nat nat
  | ImportCompleted

datatype request =
    ReqValidateToken
  | ReqCheckOwnership
  | ReqForkRepo string
  | ReqGetRepo
  | ReqListIssues nat nat
  | ReqListPullRequests nat nat
  | ReqListPullRequestCommits nat nat nat
  | ReqListAllIssueComments nat nat
  | ReqListIssueComments nat nat nat
  | ReqListPullRequestComments nat nat nat
  | ReqGist string

datatype subject =
    IssueItem nat
  | IssueStatus nat
  | PullRequestItem nat
  | CommentItem nat string

text \<open>
  The calls that leave the module. \<open>Converted s t n\<close>: a converter of the library was
  called for \<open>s\<close> with the timestamp argument \<open>t\<close> and returned \<open>n\<close> templates.
  \<open>Request (ReqListIssues perPage page)\<close> and its siblings: a provider request issued
  through \<^verbatim>\<open>withRateLimit\<close>.
\<close>

datatype effect =
    Progress step "nat option" "nat option"
  | Request request
  | FetchEvents string
  | Converted subject int nat
  | Signed EventTemplate
  | Published NostrEvent
  | IOPublished EventTemplate
  | Slept int
  | Completed

text \<open>The members of \<^verbatim>\<open>ImportContext\<close> that change during a run, and the world's trace.\<close>

record ctx =
  finalRepo :: "RepoMetadata option"
  repoAddr :: string
  importTimestamp :: int
  startTimestamp :: int
  currentTimestamp :: int
  userProfiles :: profiles
  profileEvents :: "(string \<times> NostrEvent) list"
  bridgedNostrPubkeys :: "(string \<times> string) list"
  nip39CheckedKeys :: "string set"
  issueEventIdMap :: "(nat \<times> string) list"
  prEventIdMap :: "(nat \<times> string) list"
  issuesPublished :: nat
  prsPublished :: nat
  commentsPublished :: nat
  eventQueue :: "NostrEvent list"
  trace :: "effect list"
  checkpoints :: nat

record ImportResult =
  announcementEvent :: NostrEvent
  stateEvent :: NostrEvent
  issuesImported :: nat
  commentsImported :: nat
  prsImported :: nat
  profilesCreated :: nat
  result_repo :: RepoMetadata

section \<open>Control flow: errors, state, loops\<close>

type_synonym 'a action = "ctx \<Rightarrow> ((error + 'a) \<times> ctx) option"

definition returnM :: "'a \<Rightarrow> 'a action" where
  "returnM x ctx = Some (Inr x, ctx)"

definition throwM :: "error \<Rightarrow> 'a action" where
  "throwM e ctx = Some (Inl e, ctx)"

definition bindM :: "'a action \<Rightarrow> ('a \<Rightarrow> 'b action) \<Rightarrow> 'b action" where
  "bindM m f ctx =
     (case m ctx of
        None \<Rightarrow> None
      | Some (Inl e, ctx') \<Rightarrow> Some (Inl e, ctx')
      | Some (Inr x, ctx') \<Rightarrow> f x ctx')"

definition modify :: "(ctx \<Rightarrow> ctx) \<Rightarrow> unit action" where
  "modify f ctx = Some (Inr (), f ctx)"

definition getCtx :: "ctx action" where
  "getCtx ctx = Some (Inr ctx, ctx)"

text \<open>\<^verbatim>\<open>try { m } catch { h }\<close>\<close>

definition tryCatch :: "'a action \<Rightarrow> (error \<Rightarrow> 'a action) \<Rightarrow> 'a action" where
  "tryCatch m h ctx =
     (case m ctx of
        None \<Rightarrow> None
      | Some (Inl e, ctx') \<Rightarrow> h e ctx'
      | Some (Inr x, ctx') \<Rightarrow> Some (Inr x, ctx'))"

text \<open>\<^verbatim>\<open>for (const x of xs) body\<close>, the loop's local variables threaded as \<open>s\<close>.\<close>

fun forM :: "('a \<Rightarrow> 's \<Rightarrow> 's action) \<Rightarrow> 'a list \<Rightarrow> 's \<Rightarrow> 's action" where
  "forM body [] s ctx = Some (Inr s, ctx)"
| "forM body (x # xs) s ctx =
     (case body x s ctx of
        None \<Rightarrow> None
      | Some (Inl e, ctx') \<Rightarrow> Some (Inl e, ctx')
      | Some (Inr s', ctx') \<Rightarrow> forM body xs s' ctx')"

datatype ('s, 'r) iter = Continue 's | Break 'r

text \<open>\<^verbatim>\<open>while (true) body\<close>, at most \<open>fuel\<close> iterations.\<close>

fun whileM :: "nat \<Rightarrow> ('s \<Rightarrow> ('s, 'r) iter action) \<Rightarrow> 's \<Rightarrow> 'r action" where
  "whileM 0 body s ctx = None"
| "whileM (Suc fuel) body s ctx =
     (case body s ctx of
        None \<Rightarrow> None
      | Some (Inl e, ctx') \<Rightarrow> Some (Inl e, ctx')
      | Some (Inr (Break r), ctx') \<Rightarrow> Some (Inr r, ctx')
      | Some (Inr (Continue s'), ctx') \<Rightarrow> whileM fuel body s' ctx')"

definition logEffect :: "effect \<Rightarrow> unit action" where
  "logEffect e = modify (\<lambda>ctx. ctx\<lparr>trace := trace ctx @ [e]\<rparr>)"

text \<open>A host callback or library call that may throw: the call is traced, then it
  returns or throws.\<close>

definition callOut :: "effect \<Rightarrow> 'a thrown \<Rightarrow> 'a action" where
  "callOut e outcome =
     bindM (logEffect e) (\<lambda>_.
       case outcome of Inl msg \<Rightarrow> throwM (External msg) | Inr v \<Rightarrow> returnM v)"

definition throwIfAborted :: "host \<Rightarrow> unit action" where
  "throwIfAborted h ctx =
     (if (case abortAfter h of None \<Rightarrow> False | Some n \<Rightarrow> n \<le> checkpoints ctx)
      then Some (Inl ImportAborted, ctx)
      else Some (Inr (), ctx\<lparr>checkpoints := Suc (checkpoints ctx)\<rparr>))"

definition updateProgress :: "step \<Rightarrow> nat option \<Rightarrow> nat option \<Rightarrow> unit action" where
  "updateProgress s current tot = logEffect (Progress s current tot)"

text \<open>
  \<^verbatim>\<open>withRateLimit(provider, method, operation)\<close>. The wrapper checks the abort flag,
  throttles and runs the operation; the retry decisions are the library's
  (\<^verbatim>\<open>RateLimiter.shouldRetry\<close>), so \<open>outcome\<close> stands for what the wrapper finally returns
  or throws for this request, and the request is traced once.
\<close>

definition withRateLimit :: "env \<Rightarrow> request \<Rightarrow> 'a thrown \<Rightarrow> 'a action" where
  "withRateLimit env req outcome =
     bindM (throwIfAborted (host env)) (\<lambda>_. callOut (Request req) outcome)"

section \<open>Batched publisher\<close>

text \<open>
  The function \<^verbatim>\<open>batch.map\<close> applies in \<^verbatim>\<open>flushEventQueue\<close>, for a host with
  \<^verbatim>\<open>onPublishEvent\<close>: the callback is called with the event. A promise it returns goes to
  \<^verbatim>\<open>Promise.allSettled\<close>, fulfilled or rejected; a call that throws ends the \<^verbatim>\<open>map\<close>, and
  the error leaves \<^verbatim>\<open>flushEventQueue\<close>.
\<close>

definition handOver :: "(NostrEvent \<Rightarrow> unit called) \<Rightarrow> NostrEvent \<Rightarrow> unit \<Rightarrow> unit action" where
  "handOver publish event u =
     bindM (logEffect (Published event)) (\<lambda>_.
       case publish event of
         ThrowsNow msg \<Rightarrow> throwM (External msg)
       | Fulfils _ \<Rightarrow> returnM ()
       | Rejects _ \<Rightarrow> returnM ())"

text \<open>
  \<^verbatim>\<open>flushEventQueue\<close>: nothing on an empty queue; otherwise the queue is emptied, the
  events of the batch are handed to \<^verbatim>\<open>onPublishEvent\<close> in order (if there is one; without
  it every event maps to a resolved promise), and the delay is slept once if it is
  positive.
\<close>

definition flushEventQueue :: "env \<Rightarrow> unit action" where
  "flushEventQueue env =
     bindM getCtx (\<lambda>c.
       if eventQueue c = [] then returnM ()
       else
         let batch = eventQueue c in
         bindM (modify (\<lambda>c. c\<lparr>eventQueue := []\<rparr>)) (\<lambda>_.
         bindM (case onPublishEvent (host env) of
                  Some publish \<Rightarrow> forM (handOver publish) batch ()
                | None \<Rightarrow> returnM ()) (\<lambda>_.
         if batchDelay env > 0 then logEffect (Slept (batchDelay env)) else returnM ())))"

definition publishEventBatched :: "env \<Rightarrow> NostrEvent \<Rightarrow> unit action" where
  "publishEventBatched env event =
     bindM (modify (\<lambda>c. c\<lparr>eventQueue := eventQueue c @ [event]\<rparr>)) (\<lambda>_.
     bindM getCtx (\<lambda>c.
       if int (length (eventQueue c)) \<ge> batchSize env then flushEventQueue env
       else returnM ()))"

section \<open>Identity bridger\<close>

text \<open>
  Strings are lists of \<^typ>\<open>char\<close>: the code units below 256, which is what provider user
  names, gist identifiers and npub strings are made of. \<^verbatim>\<open>toLowerCase\<close> maps \<^verbatim>\<open>A\<close> to \<^verbatim>\<open>Z\<close>
  and the capital letters U+00C0 to U+00DE (U+00D7, the multiplication sign, is none) to
  the code unit 32 above. The white space of \<^verbatim>\<open>\s\<close> and of \<^verbatim>\<open>String.trim\<close> is the tab, the line
  feed, the vertical tab, the form feed, the carriage return, the blank and the no-break
  space U+00A0; its other members (U+1680, U+2000 to U+200A, U+2028, U+2029, U+202F,
  U+205F, U+3000, U+FEFF) are no \<^typ>\<open>char\<close>.
\<close>

definition inRange :: "char \<Rightarrow> char \<Rightarrow> char \<Rightarrow> bool" where
  "inRange lo hi c = ((of_char lo :: nat) \<le> of_char c \<and> (of_char c :: nat) \<le> of_char hi)"

definition toLowerCaseChar :: "char \<Rightarrow> char" where
  "toLowerCaseChar c =
     (if inRange (CHR ''A'') (CHR ''Z'') c
         \<or> (inRange (CHR 0xC0) (CHR 0xDE) c \<and> c \<noteq> CHR 0xD7)
      then char_of ((of_char c :: nat) + 32) else c)"

definition toLowerCase :: "string \<Rightarrow> string" where
  "toLowerCase s = map toLowerCaseChar s"

definition isSpace :: "char \<Rightarrow> bool" where
  "isSpace c = (c = CHR '' '' \<or> inRange (CHR 0x09) (CHR 0x0D) c \<or> c = CHR 0xA0)"

definition isAlnum :: "char \<Rightarrow> bool" where
  "isAlnum c =
     (inRange (CHR ''a'') (CHR ''z'') c \<or> inRange (CHR ''A'') (CHR ''Z'') c
      \<or> inRange (CHR ''0'') (CHR ''9'') c)"

definition isLowerHex :: "char \<Rightarrow> bool" where
  "isLowerHex c = (inRange (CHR ''a'') (CHR ''f'') c \<or> inRange (CHR ''0'') (CHR ''9'') c)"

text \<open>The class \<^verbatim>\<open>[a-zA-HJ-NP-Z0-9]\<close> of the npub pattern.\<close>

definition isNpubChar :: "char \<Rightarrow> bool" where
  "isNpubChar c =
     (inRange (CHR ''a'') (CHR ''z'') c \<or> inRange (CHR ''A'') (CHR ''H'') c
      \<or> inRange (CHR ''J'') (CHR ''N'') c \<or> inRange (CHR ''P'') (CHR ''Z'') c
      \<or> inRange (CHR ''0'') (CHR ''9'') c)"

definition NIP39_VERIFICATION_PREFIX :: string where
  "NIP39_VERIFICATION_PREFIX = ''Verifying that I control the following Nostr public key: ''"

text \<open>The literal the pattern \<^verbatim>\<open>NIP39_NPUB_REGEX\<close> starts with (no trailing blank).\<close>

definition NIP39_SENTENCE :: string where
  "NIP39_SENTENCE = ''Verifying that I control the following Nostr public key:''"

definition startsWith :: "string \<Rightarrow> string \<Rightarrow> bool" where
  "startsWith s p = (take (length p) s = p)"

text \<open>\<^verbatim>\<open>/^(npub1[a-zA-HJ-NP-Z0-9]{50,60})/\<close>: the group is greedy and takes at most 60.\<close>

definition matchNpubAtStart :: "string \<Rightarrow> string option" where
  "matchNpubAtStart s =
     (if startsWith s ''npub1''
      then (let run = takeWhile isNpubChar (drop 5 s)
            in if length run \<ge> 50 then Some (''npub1'' @ take 60 run) else None)
      else None)"

text \<open>\<^verbatim>\<open>NIP39_NPUB_REGEX\<close> tried at the start of \<open>s\<close>: the sentence, \<^verbatim>\<open>\s*\<close>, the group.\<close>

definition matchNpubRegexHere :: "string \<Rightarrow> string option" where
  "matchNpubRegexHere s =
     (if startsWith s NIP39_SENTENCE
      then matchNpubAtStart (dropWhile isSpace (drop (length NIP39_SENTENCE) s))
      else None)"

text \<open>\<^verbatim>\<open>content.match(NIP39_NPUB_REGEX)\<close>: the leftmost position where the pattern matches.\<close>

fun matchNpubRegex :: "string \<Rightarrow> string option" where
  "matchNpubRegex [] = matchNpubRegexHere []"
| "matchNpubRegex (c # cs) =
     (case matchNpubRegexHere (c # cs) of
        Some m \<Rightarrow> Some m
      | None \<Rightarrow> matchNpubRegex cs)"

text \<open>\<^verbatim>\<open>content.slice(content.indexOf(p) + p.length)\<close> when \<^verbatim>\<open>content.includes(p)\<close>.\<close>

fun sliceAfterFirst :: "string \<Rightarrow> string \<Rightarrow> string option" where
  "sliceAfterFirst p [] = (if p = [] then Some [] else None)"
| "sliceAfterFirst p (c # cs) =
     (if startsWith (c # cs) p then Some (drop (length p) (c # cs))
      else sliceAfterFirst p cs)"

text \<open>The loop over \<^verbatim>\<open>Object.values(files)\<close>; a file is its \<^verbatim>\<open>content\<close>, if it has one.\<close>

fun findNpub :: "string option list \<Rightarrow> string option" where
  "findNpub [] = None"
| "findNpub (file # files) =
     (let content = (case file of None \<Rightarrow> [] | Some c \<Rightarrow> c) in
      case matchNpubRegex content of
        Some m \<Rightarrow> Some m
      | None \<Rightarrow>
          (case sliceAfterFirst NIP39_VERIFICATION_PREFIX content of
             Some after \<Rightarrow>
               (case matchNpubAtStart after of
                  Some m \<Rightarrow> Some m
                | None \<Rightarrow> findNpub files)
           | None \<Rightarrow> findNpub files))"

text \<open>\<^verbatim>\<open>/^[a-f0-9]{32}$|^[a-zA-Z0-9]+$/.test(proof)\<close>\<close>

definition proofIdWellFormed :: "string \<Rightarrow> bool" where
  "proofIdWellFormed p =
     ((length p = 32 \<and> list_all isLowerHex p) \<or> (p \<noteq> [] \<and> list_all isAlnum p))"

text \<open>
  What \<^verbatim>\<open>verifyGitHubGistProof\<close> does with the response of the gist request, up to its
  \<^verbatim>\<open>return verifiedPubkey === expectedPubkey\<close>. \<open>resp_json = None\<close> and a throwing
  \<^verbatim>\<open>nip19.decode\<close> end in the \<^verbatim>\<open>catch\<close>, which returns false.
\<close>

definition gistProves :: "core \<Rightarrow> string \<Rightarrow> string \<Rightarrow> GistResponse \<Rightarrow> bool" where
  "gistProves lb username expectedPubkey res =
     (if \<not> resp_ok res then False
      else case resp_json res of
        None \<Rightarrow> False
      | Some gist \<Rightarrow>
          (case gist_owner_login gist of
             None \<Rightarrow> False
           | Some ownerLogin \<Rightarrow>
               if ownerLogin = [] then False
               else if toLowerCase ownerLogin \<noteq> toLowerCase username then False
               else (case gist_files gist of
                       None \<Rightarrow> False
                     | Some files \<Rightarrow>
                         (case findNpub files of
                            None \<Rightarrow> False
                          | Some foundNpub \<Rightarrow>
                              (case nip19_decode lb foundNpub of
                                 Inl _ \<Rightarrow> False
                               | Inr (ty, verifiedPubkey) \<Rightarrow>
                                   if ty \<noteq> ''npub'' then False
                                   else verifiedPubkey = expectedPubkey)))))"

definition verifyGitHubGistProof :: "env \<Rightarrow> string \<Rightarrow> string \<Rightarrow> string \<Rightarrow> bool action" where
  "verifyGitHubGistProof env username proofId expectedPubkey =
     (if proofId = [] \<or> \<not> proofIdWellFormed proofId then returnM False
      else tryCatch
             (bindM (withRateLimit env (ReqGist proofId) (fetchGist (host env) proofId))
                (\<lambda>res. returnM (gistProves (lib (host env)) username expectedPubkey res)))
             (\<lambda>err. returnM False))"

definition nth_opt :: "'a list \<Rightarrow> nat \<Rightarrow> 'a option" where
  "nth_opt xs i = (if i < length xs then Some (xs ! i) else None)"

text \<open>\<^verbatim>\<open>context.onFetchEvents ?? context.eventIO?.fetchEvents\<close>\<close>

definition fetchEventsOf :: "host \<Rightarrow> (string \<Rightarrow> NostrEvent list thrown) option" where
  "fetchEventsOf h =
     (case onFetchEvents h of
        Some f \<Rightarrow> Some f
      | None \<Rightarrow> (case eventIO h of None \<Rightarrow> None | Some io \<Rightarrow> io_fetchEvents io))"

text \<open>The body of the \<^verbatim>\<open>try\<close> block of \<^verbatim>\<open>lookupNip39BridgedPubkey\<close>; \<open>Some pk\<close> is its
  \<^verbatim>\<open>return profile.pubkey\<close>, \<open>None\<close> is falling out of the block.\<close>

definition lookupProfileProof ::
  "env \<Rightarrow> string \<Rightarrow> string \<Rightarrow> string \<Rightarrow> (string \<Rightarrow> NostrEvent list thrown) \<Rightarrow> string option action"
where
  "lookupProfileProof env username identity profileKey fetchEvents =
     bindM (callOut (FetchEvents identity) (fetchEvents identity)) (\<lambda>events.
       case events of
         [] \<Rightarrow> returnM None
       | e # es \<Rightarrow>
           let profile = foldl (\<lambda>a b. if ev_created_at a > ev_created_at b then a else b) e es;
               iTag = find (\<lambda>t. nth_opt t 0 = Some ''i'' \<and> nth_opt t 1 = Some identity)
                        (ev_tags profile);
               proofId = (case iTag of None \<Rightarrow> None | Some t \<Rightarrow> nth_opt t 2)
           in case proofId of
                None \<Rightarrow> returnM None
              | Some p \<Rightarrow>
                  if p = [] then returnM None
                  else bindM (verifyGitHubGistProof env username p (ev_pubkey profile))
                         (\<lambda>verified.
                            if verified
                            then bindM (modify (\<lambda>c. c\<lparr>bridgedNostrPubkeys :=
                                          AList.update profileKey (ev_pubkey profile)
                                            (bridgedNostrPubkeys c)\<rparr>))
                                   (\<lambda>_. returnM (Some (ev_pubkey profile)))
                            else returnM None))"

definition lookupNip39BridgedPubkey :: "env \<Rightarrow> string \<Rightarrow> string \<Rightarrow> string option action" where
  "lookupNip39BridgedPubkey env platf username =
     bindM getCtx (\<lambda>c.
       let profileKey = getProfileMapKey (lib (host env)) platf username in
       case map_of (bridgedNostrPubkeys c) profileKey of
         Some pk \<Rightarrow> returnM (Some pk)
       | None \<Rightarrow>
           if profileKey \<in> nip39CheckedKeys c then returnM None
           else if platf \<noteq> ''github'' then returnM None
           else
             (case fetchEventsOf (host env) of
                None \<Rightarrow> returnM None
              | Some fetchEvents \<Rightarrow>
                  bindM (tryCatch
                           (lookupProfileProof env username (''github:'' @ username) profileKey
                              fetchEvents)
                           (\<lambda>err. returnM None))
                    (\<lambda>found.
                       case found of
                         Some pk \<Rightarrow> returnM (Some pk)
                       | None \<Rightarrow>
                           bindM (modify (\<lambda>c. c\<lparr>nip39CheckedKeys :=
                                     insert profileKey (nip39CheckedKeys c)\<rparr>))
                             (\<lambda>_. returnM None))))"

definition addBridgedPTags ::
  "core \<Rightarrow> EventTemplate \<Rightarrow> string \<Rightarrow> string \<Rightarrow> (string \<times> string) list \<Rightarrow> EventTemplate"
where
  "addBridgedPTags lb event platf username bridged =
     (case map_of bridged (getProfileMapKey lb platf username) of
        None \<Rightarrow> event
      | Some bridgedPubkey \<Rightarrow>
          if bridgedPubkey \<noteq> [] \<and> length bridgedPubkey = 64
          then event\<lparr>tags := tags event @ [[''p'', bridgedPubkey]]\<rparr>
          else event)"

section \<open>Profile manager\<close>

definition ensureUserProfile :: "env \<Rightarrow> string \<Rightarrow> string option \<Rightarrow> unit action" where
  "ensureUserProfile env username avatar =
     bindM getCtx (\<lambda>c.
       let profileKey = getProfileMapKey (lib (host env)) (platform env) username in
       if map_of (userProfiles c) profileKey \<noteq> None then returnM ()
       else
         bindM (lookupNip39BridgedPubkey env (platform env) username) (\<lambda>_.
           let profile = generatePlatformUserProfile (lib (host env)) (platform env) username in
           modify (\<lambda>c. c\<lparr>userProfiles :=
                          AList.update profileKey
                            \<lparr>privkey = pp_privkey profile, pubkey = pp_pubkey profile\<rparr>
                            (userProfiles c),
                        profileEvents :=
                          AList.update profileKey (pp_profileEvent profile) (profileEvents c)\<rparr>)))"

section \<open>Streaming pipelines\<close>

text \<open>\<^verbatim>\<open>new Date(x.createdAt) >= sinceDate\<close> and \<^verbatim>\<open>new Date(x.createdAt) < sinceDate\<close>\<close>

definition dateGe :: "int option \<Rightarrow> int \<Rightarrow> bool" where
  "dateGe d since = (case d of None \<Rightarrow> False | Some t \<Rightarrow> t \<ge> since)"

definition dateLt :: "int option \<Rightarrow> int \<Rightarrow> bool" where
  "dateLt d since = (case d of None \<Rightarrow> False | Some t \<Rightarrow> t < since)"

definition advanceTimestamp :: "ctx \<Rightarrow> ctx" where
  "advanceTimestamp c = c\<lparr>currentTimestamp := currentTimestamp c + 1\<rparr>"

subsection \<open>Issues\<close>

text \<open>The body of \<^verbatim>\<open>for (const statusData of statusEvents)\<close>; the loop variable of
  the model is \<^verbatim>\<open>statusEventsPublished\<close>.\<close>

definition publishStatusEvent :: "env \<Rightarrow> nat \<Rightarrow> EventTemplate \<Rightarrow> nat \<Rightarrow> nat action" where
  "publishStatusEvent env issueNo statusEvent statusEventsPublished =
     bindM (throwIfAborted (host env)) (\<lambda>_.
       case onSignEvent (host env) of
         Some sign \<Rightarrow>
           bindM (callOut (Signed statusEvent) (sign statusEvent)) (\<lambda>signedStatusEvent.
           bindM (publishEventBatched env signedStatusEvent) (\<lambda>_.
           bindM (modify advanceTimestamp) (\<lambda>_.
           returnM (Suc statusEventsPublished))))
       | None \<Rightarrow>
           (case eventIO (host env) of
              Some io \<Rightarrow>
                bindM (callOut (IOPublished statusEvent) (io_publishEvent io statusEvent))
                  (\<lambda>result.
                     if \<not> ok result
                     then throwM (StatusPublishFailed issueNo
                            (case publish_error result of
                               None \<Rightarrow> ''Unknown error''
                             | Some m \<Rightarrow> if m = [] then ''Unknown error'' else m))
                     else bindM (modify advanceTimestamp) (\<lambda>_.
                          returnM (Suc statusEventsPublished)))
            | None \<Rightarrow> throwM NoSigningMethod))"

text \<open>The body of \<^verbatim>\<open>for (const issue of filteredIssues)\<close>; the loop variables are
  \<^verbatim>\<open>(totalIssues, statusEventsPublished)\<close>.\<close>

definition processIssue :: "env \<Rightarrow> GitIssue \<Rightarrow> nat \<times> nat \<Rightarrow> (nat \<times> nat) action" where
  "processIssue env issue acc =
     bindM (throwIfAborted (host env)) (\<lambda>_.
     bindM (ensureUserProfile env (login (issue_author issue)) (avatarUrl (issue_author issue)))
       (\<lambda>_.
     bindM getCtx (\<lambda>c0.
     let issueEventData =
           convertIssuesToNostrEvents (lib (host env)) [issue] (repoAddr c0) (platform env)
             (userProfiles c0) (importTimestamp c0) (currentTimestamp c0)
     in
     bindM (logEffect (Converted (IssueItem (issue_number issue)) (currentTimestamp c0)
                         (length issueEventData))) (\<lambda>_.
     case issueEventData of
       [] \<Rightarrow> returnM acc
     | eventData # _ \<Rightarrow>
         let signedIssueEvent =
               signEvent (lib (host env))
                 (addBridgedPTags (lib (host env)) (ci_event eventData) (platform env)
                    (login (issue_author issue)) (bridgedNostrPubkeys c0))
                 (ci_privkey eventData);
             totalIssues = Suc (fst acc)
         in
         bindM (publishEventBatched env signedIssueEvent) (\<lambda>_.
         bindM (modify (\<lambda>c. c\<lparr>issueEventIdMap :=
                           AList.update (issue_number issue) (ev_id signedIssueEvent)
                             (issueEventIdMap c),
                         currentTimestamp := currentTimestamp c + 1,
                         issuesPublished := totalIssues\<rparr>)) (\<lambda>_.
         bindM getCtx (\<lambda>c1.
         let statusEvents =
               convertIssueStatusesToEvents (lib (host env)) (ev_id signedIssueEvent)
                 (issue_state issue) (issue_closedAt issue) (userPubkey (host env))
                 (repoAddr c1) (importTimestamp c1) (currentTimestamp c1)
         in
         bindM (logEffect (Converted (IssueStatus (issue_number issue)) (currentTimestamp c1)
                             (length statusEvents))) (\<lambda>_.
         bindM (forM (publishStatusEvent env (issue_number issue)) statusEvents (snd acc))
           (\<lambda>statusEventsPublished.
         bindM (updateProgress (PublishingIssues totalIssues) (Some totalIssues) None) (\<lambda>_.
         returnM (totalIssues, statusEventsPublished)))))))))))"

definition filterSince :: "ImportConfig \<Rightarrow> ('a \<Rightarrow> int option) \<Rightarrow> 'a list \<Rightarrow> 'a list" where
  "filterSince cfg createdAt xs =
     (case sinceDate cfg of
        Some since \<Rightarrow> filter (\<lambda>x. dateGe (createdAt x) since) xs
      | None \<Rightarrow> xs)"

text \<open>One turn of the \<^verbatim>\<open>while (true)\<close> of \<^verbatim>\<open>fetchAndPublishIssuesStreaming\<close>; the loop
  variables are \<^verbatim>\<open>(page, (totalIssues, statusEventsPublished))\<close>. The variable
  \<^verbatim>\<open>totalPages\<close> is written and never read, and is left out.\<close>

definition issuesPage ::
  "env \<Rightarrow> nat \<times> nat \<times> nat \<Rightarrow> (nat \<times> nat \<times> nat, nat \<times> nat) iter action"
where
  "issuesPage env st =
     (case st of (page, acc) \<Rightarrow>
        bindM (throwIfAborted (host env)) (\<lambda>_.
        bindM (withRateLimit env (ReqListIssues 100 page)
                 (listIssues (api env) (owner (parsed env)) (repo (parsed env)) 100 page
                    (sinceDate (config env)))) (\<lambda>pageIssues.
        if pageIssues = [] then returnM (Break acc)
        else
          bindM (forM (processIssue env) (filterSince (config env) issue_createdAt pageIssues)
                   acc) (\<lambda>acc'.
          returnM (Continue (Suc page, acc'))))))"

definition fetchAndPublishIssuesStreaming :: "nat \<Rightarrow> env \<Rightarrow> (nat \<times> nat) action" where
  "fetchAndPublishIssuesStreaming fuel env =
     bindM (updateProgress FetchingIssues None None) (\<lambda>_.
     bindM (throwIfAborted (host env)) (\<lambda>_.
     bindM (whileM fuel (issuesPage env) (1, 0, 0)) (\<lambda>acc.
     bindM (flushEventQueue env) (\<lambda>_.
     returnM acc))))"

subsection \<open>Pull requests\<close>

text \<open>One turn of the inner \<^verbatim>\<open>while (true)\<close> over the commit pages of a pull request;
  the loop variables are \<^verbatim>\<open>(commitPage, allShas)\<close>.\<close>

definition prCommitsPage ::
  "env \<Rightarrow> (string \<Rightarrow> string \<Rightarrow> nat \<Rightarrow> nat \<Rightarrow> nat \<Rightarrow> GitCommit list thrown) \<Rightarrow> nat
     \<Rightarrow> nat \<times> string list \<Rightarrow> (nat \<times> string list, string list) iter action"
where
  "prCommitsPage env listCommits prNo st =
     (case st of (commitPage, allShas) \<Rightarrow>
        bindM (throwIfAborted (host env)) (\<lambda>_.
        bindM (withRateLimit env (ReqListPullRequestCommits prNo 100 commitPage)
                 (listCommits (owner (parsed env)) (repo (parsed env)) prNo 100 commitPage))
          (\<lambda>commits.
             if length commits < 100 then returnM (Break (allShas @ map sha commits))
             else returnM (Continue (Suc commitPage, allShas @ map sha commits)))))"

text \<open>The \<^verbatim>\<open>try\<close>/\<^verbatim>\<open>catch\<close> around the commit pages: any error, an abort included, leaves
  \<^verbatim>\<open>prCommits\<close> undefined.\<close>

definition fetchPrCommits :: "nat \<Rightarrow> env \<Rightarrow> nat \<Rightarrow> (nat \<times> string list) option action" where
  "fetchPrCommits fuel env prNo =
     (case listPullRequestCommits (api env) of
        None \<Rightarrow> returnM None
      | Some listCommits \<Rightarrow>
          tryCatch
            (bindM (whileM fuel (prCommitsPage env listCommits prNo) (1, [])) (\<lambda>allShas.
               returnM (if allShas \<noteq> [] then Some (prNo, allShas) else None)))
            (\<lambda>err. returnM None))"

text \<open>The body of \<^verbatim>\<open>for (const pr of filteredPrs)\<close>; the loop variable is
  \<^verbatim>\<open>totalPRs\<close>.\<close>

definition processPullRequest :: "nat \<Rightarrow> env \<Rightarrow> GitPullRequest \<Rightarrow> nat \<Rightarrow> nat action" where
  "processPullRequest fuel env pr totalPRs =
     bindM (throwIfAborted (host env)) (\<lambda>_.
     bindM (ensureUserProfile env (login (pr_author pr)) (avatarUrl (pr_author pr))) (\<lambda>_.
     bindM (fetchPrCommits fuel env (pr_number pr)) (\<lambda>prCommits.
     bindM getCtx (\<lambda>c0.
     let prEventData =
           convertPullRequestsToNostrEvents (lib (host env)) [pr] (repoAddr c0) (platform env)
             (userProfiles c0) (importTimestamp c0) (currentTimestamp c0) prCommits
     in
     bindM (logEffect (Converted (PullRequestItem (pr_number pr)) (currentTimestamp c0)
                         (length prEventData))) (\<lambda>_.
     case prEventData of
       [] \<Rightarrow> returnM totalPRs
     | eventData # _ \<Rightarrow>
         let signedPrEvent =
               signEvent (lib (host env))
                 (addBridgedPTags (lib (host env)) (ci_event eventData) (platform env)
                    (login (pr_author pr)) (bridgedNostrPubkeys c0))
                 (ci_privkey eventData)
         in
         bindM (modify (\<lambda>c. c\<lparr>prEventIdMap :=
                           AList.update (pr_number pr) (ev_id signedPrEvent)
                             (prEventIdMap c)\<rparr>)) (\<lambda>_.
         bindM (publishEventBatched env signedPrEvent) (\<lambda>_.
         bindM (modify (\<lambda>c. c\<lparr>currentTimestamp := currentTimestamp c + 1,
                         prsPublished := Suc totalPRs\<rparr>)) (\<lambda>_.
         bindM (updateProgress (PublishingPullRequests (Suc totalPRs)) (Some (Suc totalPRs))
                  None) (\<lambda>_.
         returnM (Suc totalPRs))))))))))"

text \<open>One turn of the \<^verbatim>\<open>while (true)\<close> of \<^verbatim>\<open>fetchAndPublishPRsStreaming\<close>; the loop
  variables are \<^verbatim>\<open>(page, totalPRs)\<close>.\<close>

definition pullRequestsPage :: "nat \<Rightarrow> env \<Rightarrow> nat \<times> nat \<Rightarrow> (nat \<times> nat, nat) iter action" where
  "pullRequestsPage fuel env st =
     (case st of (page, totalPRs) \<Rightarrow>
        bindM (throwIfAborted (host env)) (\<lambda>_.
        bindM (withRateLimit env (ReqListPullRequests 100 page)
                 (listPullRequests (api env) (owner (parsed env)) (repo (parsed env)) 100 page))
          (\<lambda>pagePrs.
             let filteredPrs = filterSince (config env) pr_createdAt pagePrs in
             if filteredPrs = [] then returnM (Break totalPRs)
             else
               bindM (forM (processPullRequest fuel env) filteredPrs totalPRs) (\<lambda>totalPRs'.
               if length pagePrs < 100 then returnM (Break totalPRs')
               else returnM (Continue (Suc page, totalPRs'))))))"

definition fetchAndPublishPRsStreaming :: "nat \<Rightarrow> env \<Rightarrow> nat action" where
  "fetchAndPublishPRsStreaming fuel env =
     bindM (updateProgress FetchingPullRequests None None) (\<lambda>_.
     bindM (throwIfAborted (host env)) (\<lambda>_.
     bindM (whileM fuel (pullRequestsPage fuel env) (1, 0)) (\<lambda>totalPRs.
     bindM (flushEventQueue env) (\<lambda>_.
     returnM totalPRs))))"

subsection \<open>Comments\<close>

text \<open>
  The block the code repeats for a comment in the bulk loop and in both fallback loops:
  ensure the author's profile, convert, tag, sign, enqueue, record the comment's event
  id for threading, advance the timestamp and the counters. \<open>parentNo\<close> is the number of
  the issue or pull request the comment belongs to (it only labels the trace); the loop
  variables are \<^verbatim>\<open>(commentEventMap, totalCommentsPublished)\<close>.
\<close>

definition publishComment ::
  "env \<Rightarrow> nat \<Rightarrow> GitComment \<Rightarrow> string \<Rightarrow> (string \<times> string) list \<times> nat
     \<Rightarrow> ((string \<times> string) list \<times> nat) action"
where
  "publishComment env parentNo comment parentEventId st =
     (case st of (commentEventMap, totalCommentsPublished) \<Rightarrow>
        bindM (ensureUserProfile env (login (comment_author comment))
                 (avatarUrl (comment_author comment))) (\<lambda>_.
        bindM getCtx (\<lambda>c0.
        let convertedComments =
              convertCommentsToNostrEvents (lib (host env)) [comment] parentEventId
                (platform env) (userProfiles c0) commentEventMap (importTimestamp c0)
                (currentTimestamp c0)
        in
        bindM (logEffect (Converted (CommentItem parentNo (comment_id comment))
                            (currentTimestamp c0) (length convertedComments))) (\<lambda>_.
        case convertedComments of
          [] \<Rightarrow> returnM st
        | convertedComment # _ \<Rightarrow>
            let signedCommentEvent =
                  signEvent (lib (host env))
                    (addBridgedPTags (lib (host env)) (cc_event convertedComment) (platform env)
                       (login (comment_author comment)) (bridgedNostrPubkeys c0))
                    (cc_privkey convertedComment)
            in
            bindM (publishEventBatched env signedCommentEvent) (\<lambda>_.
            bindM (modify (\<lambda>c. c\<lparr>currentTimestamp := currentTimestamp c + 1,
                            commentsPublished := Suc totalCommentsPublished\<rparr>)) (\<lambda>_.
            returnM (AList.update (platformCommentId convertedComment)
                       (ev_id signedCommentEvent) commentEventMap,
                     Suc totalCommentsPublished)))))))"

text \<open>The body of \<^verbatim>\<open>for (const comment of filteredComments)\<close> of the bulk strategy.\<close>

definition processBulkComment ::
  "env \<Rightarrow> nat list \<Rightarrow> nat list \<Rightarrow> BulkComment \<Rightarrow> (string \<times> string) list \<times> nat
     \<Rightarrow> ((string \<times> string) list \<times> nat) action"
where
  "processBulkComment env issueNumbers prNumbers comment st =
     bindM (throwIfAborted (host env)) (\<lambda>_.
       let isPrComment = (issueNumber comment \<in> set prNumbers);
           isIssueComment = (issueNumber comment \<in> set issueNumbers)
       in
       if \<not> isPrComment \<and> \<not> isIssueComment then returnM st
       else
         bindM getCtx (\<lambda>c.
           case (if isPrComment then map_of (prEventIdMap c) (issueNumber comment)
                 else map_of (issueEventIdMap c) (issueNumber comment)) of
             None \<Rightarrow> returnM st
           | Some parentEventId \<Rightarrow>
               if parentEventId = [] then returnM st
               else publishComment env (issueNumber comment) (bulk_comment comment)
                      parentEventId st))"

text \<open>One turn of the \<^verbatim>\<open>while (true)\<close> of the bulk strategy; the loop variables are
  \<^verbatim>\<open>(page, (commentEventMap, totalCommentsPublished))\<close>.\<close>

definition bulkCommentsPage ::
  "env \<Rightarrow> (string \<Rightarrow> string \<Rightarrow> nat \<Rightarrow> nat \<Rightarrow> int option \<Rightarrow> BulkComment list thrown)
     \<Rightarrow> nat list \<Rightarrow> nat list \<Rightarrow> nat \<times> (string \<times> string) list \<times> nat
     \<Rightarrow> (nat \<times> (string \<times> string) list \<times> nat, (string \<times> string) list \<times> nat) iter action"
where
  "bulkCommentsPage env listAll issueNumbers prNumbers st =
     (case st of (page, acc) \<Rightarrow>
        bindM (throwIfAborted (host env)) (\<lambda>_.
        bindM (withRateLimit env (ReqListAllIssueComments 100 page)
                 (listAll (owner (parsed env)) (repo (parsed env)) 100 page
                    (sinceDate (config env)))) (\<lambda>pageComments.
        if pageComments = [] then returnM (Break acc)
        else
          bindM (forM (processBulkComment env issueNumbers prNumbers)
                   (filterSince (config env) (\<lambda>c. comment_createdAt (bulk_comment c))
                      pageComments) acc) (\<lambda>acc'.
          bindM (updateProgress (PublishingComments (snd acc')) (Some (snd acc')) None) (\<lambda>_.
          if length pageComments < 100 then returnM (Break acc')
          else returnM (Continue (Suc page, acc')))))))"

text \<open>The body of \<^verbatim>\<open>for (const comment of pageComments)\<close> of the fallback strategy.\<close>

definition processParentComment ::
  "env \<Rightarrow> nat \<Rightarrow> string \<Rightarrow> GitComment \<Rightarrow> (string \<times> string) list \<times> nat
     \<Rightarrow> ((string \<times> string) list \<times> nat) action"
where
  "processParentComment env parentNo parentEventId comment st =
     (if (case sinceDate (config env) of
            Some since \<Rightarrow> dateLt (comment_createdAt comment) since
          | None \<Rightarrow> False)
      then returnM st
      else publishComment env parentNo comment parentEventId st)"

text \<open>One turn of the \<^verbatim>\<open>while (true)\<close> over the comment pages of one issue or pull
  request; \<open>listFor\<close> is \<^verbatim>\<open>listIssueComments\<close> or \<^verbatim>\<open>listPullRequestComments\<close> and \<open>req\<close>
  the request it makes.\<close>

definition parentCommentsPage ::
  "env \<Rightarrow> (nat \<Rightarrow> nat \<Rightarrow> nat \<Rightarrow> request)
     \<Rightarrow> (string \<Rightarrow> string \<Rightarrow> nat \<Rightarrow> nat \<Rightarrow> nat \<Rightarrow> int option \<Rightarrow> GitComment list thrown)
     \<Rightarrow> nat \<Rightarrow> string \<Rightarrow> nat \<times> (string \<times> string) list \<times> nat
     \<Rightarrow> (nat \<times> (string \<times> string) list \<times> nat, (string \<times> string) list \<times> nat) iter action"
where
  "parentCommentsPage env req listFor parentNo parentEventId st =
     (case st of (commentPage, acc) \<Rightarrow>
        bindM (throwIfAborted (host env)) (\<lambda>_.
        bindM (withRateLimit env (req parentNo 100 commentPage)
                 (listFor (owner (parsed env)) (repo (parsed env)) parentNo 100 commentPage
                    (sinceDate (config env)))) (\<lambda>pageComments.
        if pageComments = [] then returnM (Break acc)
        else
          bindM (forM (processParentComment env parentNo parentEventId) pageComments acc)
            (\<lambda>acc'.
          if length pageComments < 100 then returnM (Break acc')
          else returnM (Continue (Suc commentPage, acc'))))))"

text \<open>The body of \<^verbatim>\<open>for (const issueNumber of issueNumbers)\<close> (with the issue map and
  \<^verbatim>\<open>listIssueComments\<close>) and of \<^verbatim>\<open>for (const prNumber of prNumbers)\<close> (with the pull
  request map and \<^verbatim>\<open>listPullRequestComments\<close>).\<close>

definition processParent ::
  "nat \<Rightarrow> env \<Rightarrow> (ctx \<Rightarrow> (nat \<times> string) list) \<Rightarrow> (nat \<Rightarrow> nat \<Rightarrow> nat \<Rightarrow> request)
     \<Rightarrow> (string \<Rightarrow> string \<Rightarrow> nat \<Rightarrow> nat \<Rightarrow> nat \<Rightarrow> int option \<Rightarrow> GitComment list thrown)
     \<Rightarrow> nat \<Rightarrow> (string \<times> string) list \<times> nat \<Rightarrow> ((string \<times> string) list \<times> nat) action"
where
  "processParent fuel env idMap req listFor parentNo st =
     bindM (throwIfAborted (host env)) (\<lambda>_.
     bindM getCtx (\<lambda>c.
       case map_of (idMap c) parentNo of
         None \<Rightarrow> returnM st
       | Some parentEventId \<Rightarrow>
           if parentEventId = [] then returnM st
           else
             bindM (whileM fuel (parentCommentsPage env req listFor parentNo parentEventId)
                      (1, st)) (\<lambda>acc.
             returnM ([], snd acc))))"

definition fetchAndPublishCommentsStreaming ::
  "nat \<Rightarrow> env \<Rightarrow> nat list \<Rightarrow> nat list \<Rightarrow> nat action"
where
  "fetchAndPublishCommentsStreaming fuel env issueNumbers prNumbers =
     (if issueNumbers = [] \<and> prNumbers = [] then returnM 0
      else
        bindM (updateProgress FetchingComments None None) (\<lambda>_.
        bindM (throwIfAborted (host env)) (\<lambda>_.
        case listAllIssueComments (api env) of
          Some listAll \<Rightarrow>
            bindM (whileM fuel (bulkCommentsPage env listAll issueNumbers prNumbers)
                     (1, [], 0)) (\<lambda>acc.
            bindM (flushEventQueue env) (\<lambda>_.
            returnM (snd acc)))
        | None \<Rightarrow>
            bindM (forM (processParent fuel env issueEventIdMap ReqListIssueComments
                           (listIssueComments (api env))) issueNumbers ([], 0)) (\<lambda>acc1.
            bindM (forM (processParent fuel env prEventIdMap ReqListPullRequestComments
                           (listPullRequestComments (api env))) prNumbers acc1) (\<lambda>acc2.
            bindM (flushEventQueue env) (\<lambda>_.
            returnM (snd acc2)))))))"

section \<open>Orchestrator\<close>

definition orDefault :: "string option \<Rightarrow> string \<Rightarrow> string" where
  "orDefault v d = (case v of None \<Rightarrow> d | Some x \<Rightarrow> if x = [] then d else x)"

definition initializeImportContext ::
  "host \<Rightarrow> string \<Rightarrow> string \<Rightarrow> ImportConfig \<Rightarrow> env action"
where
  "initializeImportContext h repoUrl token cfg =
     bindM (updateProgress ParsingUrl None None) (\<lambda>_.
     bindM (throwIfAborted h) (\<lambda>_.
     case parseRepoUrl (lib h) repoUrl of
       Inl msg \<Rightarrow> throwM (External msg)
     | Inr p \<Rightarrow>
         bindM (updateProgress (Connecting (provider p)) None None) (\<lambda>_.
         bindM (throwIfAborted h) (\<lambda>_.
         if token = [] \<or> list_all isSpace token then throwM (TokenRequired (provider p))
         else
           (case getGitServiceApiFromUrl (lib h) repoUrl token of
              Inl msg \<Rightarrow> throwM (External msg)
            | Inr a \<Rightarrow>
                returnM \<lparr>host = h, api = a, platform = provider p, parsed = p, config = cfg,
                         batchSize = (case relayBatchSize cfg of None \<Rightarrow> 30 | Some b \<Rightarrow> b),
                         batchDelay = (case relayBatchDelay cfg of None \<Rightarrow> 250 | Some d \<Rightarrow> d)\<rparr>)))))"

definition validateTokenAndOwnership :: "env \<Rightarrow> (RepoMetadata option \<times> bool) action" where
  "validateTokenAndOwnership env =
     bindM (updateProgress ValidatingToken None None) (\<lambda>_.
     bindM (throwIfAborted (host env)) (\<lambda>_.
     bindM (withRateLimit env ReqValidateToken
              (validateTokenPermissions (lib (host env)) (api env) (owner (parsed env))
                 (repo (parsed env)))) (\<lambda>tokenValidation.
     if \<not> valid tokenValidation
     then throwM (TokenValidationFailed
                    (orDefault (validation_error tokenValidation) ''Invalid token''))
     else if \<not> hasRead tokenValidation then throwM NoReadPermission
     else
       bindM (updateProgress CheckingOwnership None None) (\<lambda>_.
       bindM (throwIfAborted (host env)) (\<lambda>_.
       bindM (withRateLimit env ReqCheckOwnership
                (checkRepoOwnership (lib (host env)) (api env) (owner (parsed env))
                   (repo (parsed env)))) (\<lambda>ownership.
       returnM (ownership_repo ownership, isOwner ownership)))))))"

text \<open>\<^verbatim>\<open>ensureForkedRepo\<close>. A fork the provider returns is an object (reading its
  \<^verbatim>\<open>fullName\<close> would throw otherwise), so the function never returns null and the
  caller's null check after it cannot fire.\<close>

definition ensureForkedRepo :: "env \<Rightarrow> bool \<Rightarrow> RepoMetadata action" where
  "ensureForkedRepo env isOwnr =
     (if isOwnr
      then bindM getCtx (\<lambda>c.
             case finalRepo c of
               None \<Rightarrow> throwM RepoMetadataMissing
             | Some r \<Rightarrow> returnM r)
      else if \<not> forkRepo (config env) then throwM ForkRequired
      else
        bindM (updateProgress CreatingFork None None) (\<lambda>_.
        bindM (throwIfAborted (host env)) (\<lambda>_.
        let forkNm = orDefault (forkName (config env)) (repo (parsed env) @ ''-imported'') in
        bindM (withRateLimit env (ReqForkRepo forkNm)
                 (forkRepoApi (api env) (owner (parsed env)) (repo (parsed env)) forkNm))
          (\<lambda>forkedRepo.
        bindM (updateProgress (ForkCreated (fullName forkedRepo)) None None) (\<lambda>_.
        returnM forkedRepo)))))"

text \<open>\<^verbatim>\<open>fetchRepoMetadata\<close>; \<^verbatim>\<open>context.finalRepo === ownershipRepo\<close> compares object
  identities, which \<open>repo_ref\<close> stands for.\<close>

definition fetchRepoMetadata :: "env \<Rightarrow> RepoMetadata \<Rightarrow> RepoMetadata option action" where
  "fetchRepoMetadata env ownershipRepo =
     bindM getCtx (\<lambda>c.
       if (case finalRepo c of None \<Rightarrow> False | Some r \<Rightarrow> repo_ref r = repo_ref ownershipRepo)
       then
         bindM (updateProgress FetchingMetadata None None) (\<lambda>_.
         bindM (throwIfAborted (host env)) (\<lambda>_.
         withRateLimit env ReqGetRepo
           (getRepo (api env) (owner (parsed env)) (repo (parsed env)))))
       else
         (case finalRepo c of
            None \<Rightarrow> throwM RepoMetadataUnexpectedlyNull
          | Some r \<Rightarrow> returnM (Some r)))"

definition convertRepoEvents :: "env \<Rightarrow> (EventTemplate \<times> EventTemplate) action" where
  "convertRepoEvents env =
     bindM (updateProgress ConvertingRepo None None) (\<lambda>_.
     bindM (throwIfAborted (host env)) (\<lambda>_.
     bindM getCtx (\<lambda>c.
       case finalRepo c of
         None \<Rightarrow> throwM RepoMetadataUnavailable
       | Some r \<Rightarrow>
           let rs = (case relays (config env) of None \<Rightarrow> [] | Some l \<Rightarrow> l) in
           if rs = [] then throwM RelayRequired
           else returnM
                  (convertRepoToNostrEvent (lib (host env)) r rs (userPubkey (host env))
                     (importTimestamp c),
                   convertRepoToStateEvent (lib (host env)) r (importTimestamp c)))))"

definition publishRepoEvents ::
  "env \<Rightarrow> EventTemplate \<times> EventTemplate \<Rightarrow> (NostrEvent \<times> NostrEvent) action"
where
  "publishRepoEvents env repoEvents =
     bindM (updateProgress PublishingRepoEvents None None) (\<lambda>_.
     bindM (throwIfAborted (host env)) (\<lambda>_.
     case onSignEvent (host env) of
       None \<Rightarrow>
         (case eventIO (host env) of
            Some _ \<Rightarrow> throwM EventIOCannotSignRepoEvents
          | None \<Rightarrow> throwM SignCallbackRequired)
     | Some sign \<Rightarrow>
         bindM (callOut (Signed (fst repoEvents)) (sign (fst repoEvents)))
           (\<lambda>signedRepoAnnouncement.
         bindM (callOut (Signed (snd repoEvents)) (sign (snd repoEvents)))
           (\<lambda>signedRepoState.
         case onPublishEvent (host env) of
           None \<Rightarrow>
             (case eventIO (host env) of
                Some _ \<Rightarrow> throwM PublishCallbackRequired
              | None \<Rightarrow> throwM PublishCallbackMissing)
         | Some publish \<Rightarrow>
             bindM (callOut (Published signedRepoAnnouncement)
                      (awaited (publish signedRepoAnnouncement)))
               (\<lambda>_.
             bindM (callOut (Published signedRepoState) (awaited (publish signedRepoState)))
               (\<lambda>_.
             returnM (signedRepoAnnouncement, signedRepoState)))))))"

text \<open>The body of the loop of \<^verbatim>\<open>publishProfileEvents\<close>; the loop variable is
  \<^verbatim>\<open>profileCount\<close>.\<close>

definition publishProfileEvent :: "env \<Rightarrow> nat \<Rightarrow> string \<times> NostrEvent \<Rightarrow> nat \<Rightarrow> nat action" where
  "publishProfileEvent env sz entry profileCount =
     bindM (throwIfAborted (host env)) (\<lambda>_.
     bindM (updateProgress (PublishingProfile (Suc profileCount) sz)
              (Some (Suc profileCount)) (Some sz)) (\<lambda>_.
     bindM (publishEventBatched env (snd entry)) (\<lambda>_.
     returnM (Suc profileCount))))"

definition publishProfileEvents :: "env \<Rightarrow> unit action" where
  "publishProfileEvents env =
     bindM getCtx (\<lambda>c.
     bindM (updateProgress (PublishingProfiles (length (profileEvents c))) None None) (\<lambda>_.
     bindM (throwIfAborted (host env)) (\<lambda>_.
     bindM (forM (publishProfileEvent env (length (profileEvents c))) (profileEvents c) 0)
       (\<lambda>_. returnM ()))))"

text \<open>\<^verbatim>\<open>fullName.split("/").pop() || name\<close>\<close>

definition repoNameOf :: "RepoMetadata \<Rightarrow> string" where
  "repoNameOf r =
     (let lastPart = rev (takeWhile (\<lambda>ch. ch \<noteq> CHR ''/'') (rev (fullName r)))
      in if lastPart = [] then repo_name r else lastPart)"

text \<open>The context a run starts from: \<^verbatim>\<open>importRepository\<close>'s literal, with the queue of
  \<^verbatim>\<open>initializeImportContext\<close> and an empty trace.\<close>

definition newContext :: "host \<Rightarrow> ctx" where
  "newContext h =
     \<lparr>finalRepo = None, repoAddr = [], importTimestamp = now h, startTimestamp = 0,
      currentTimestamp = 0, userProfiles = [], profileEvents = [], bridgedNostrPubkeys = [],
      nip39CheckedKeys = {}, issueEventIdMap = [], prEventIdMap = [], issuesPublished = 0,
      prsPublished = 0, commentsPublished = 0, eventQueue = [], trace = [], checkpoints = 0\<rparr>"

text \<open>
  The \<^verbatim>\<open>try\<close> block of \<^verbatim>\<open>importRepository\<close>, in the four parts its comments name.
  First the context is initialised, the token and the ownership are validated, the
  repository is resolved (forked if needed, its metadata fetched) and the repository
  address and the timestamps are set. The null check after \<^verbatim>\<open>ensureForkedRepo\<close> and the
  ``final safety check'' cannot fire and are left out.
\<close>

definition resolveRepository :: "host \<Rightarrow> string \<Rightarrow> string \<Rightarrow> ImportConfig \<Rightarrow> env action" where
  "resolveRepository h repoUrl token cfg =
     bindM (initializeImportContext h repoUrl token cfg) (\<lambda>env.
     bindM (validateTokenAndOwnership env) (\<lambda>ownership.
     case fst ownership of
       None \<Rightarrow> throwM RepoInfoMissing
     | Some ownershipRepo \<Rightarrow>
         bindM (modify (\<lambda>c. c\<lparr>finalRepo := Some ownershipRepo\<rparr>)) (\<lambda>_.
         bindM (ensureForkedRepo env (snd ownership)) (\<lambda>forkedOrOriginalRepo.
         bindM (modify (\<lambda>c. c\<lparr>finalRepo := Some forkedOrOriginalRepo\<rparr>)) (\<lambda>_.
         bindM (fetchRepoMetadata env ownershipRepo) (\<lambda>repoWithMetadata.
         case repoWithMetadata of
           None \<Rightarrow> throwM RepoMetadataFetchFailed
         | Some fr \<Rightarrow>
             bindM (modify (\<lambda>c. c\<lparr>finalRepo := Some fr,
                             repoAddr := ''30617:'' @ userPubkey h @ '':'' @ repoNameOf fr,
                             startTimestamp := importTimestamp c - 3600,
                             currentTimestamp := importTimestamp c - 3600\<rparr>)) (\<lambda>_.
             returnM env)))))))"

text \<open>Steps 2 to 4: the pipelines the configuration switches on; the result is
  \<^verbatim>\<open>(issuesImported, prsImported, commentsImported)\<close>.\<close>

definition streamEntities :: "nat \<Rightarrow> env \<Rightarrow> (nat \<times> nat \<times> nat) action" where
  "streamEntities fuel env =
     bindM (if mirrorIssues (config env)
            then bindM (fetchAndPublishIssuesStreaming fuel env) (\<lambda>r. returnM (fst r))
            else returnM 0) (\<lambda>issuesImp.
     bindM (if mirrorPullRequests (config env) then fetchAndPublishPRsStreaming fuel env
            else returnM 0) (\<lambda>prsImp.
     bindM (if mirrorComments (config env)
            then bindM getCtx (\<lambda>c.
                   fetchAndPublishCommentsStreaming fuel env (map fst (issueEventIdMap c))
                     (map fst (prEventIdMap c)))
            else returnM 0) (\<lambda>commentsImp.
     returnM (issuesImp, prsImp, commentsImp))))"

text \<open>Step 5, the final flush and the result.\<close>

definition completeImport ::
  "env \<Rightarrow> NostrEvent \<times> NostrEvent \<Rightarrow> nat \<times> nat \<times> nat \<Rightarrow> ImportResult action"
where
  "completeImport env signedRepoEvents counts =
     bindM (publishProfileEvents env) (\<lambda>_.
     bindM (flushEventQueue env) (\<lambda>_.
     bindM (updateProgress ImportCompleted None None) (\<lambda>_.
     bindM getCtx (\<lambda>c.
       case finalRepo c of
         None \<Rightarrow> throwM RepoMetadataLost
       | Some r \<Rightarrow>
           bindM (logEffect Completed) (\<lambda>_.
           returnM \<lparr>announcementEvent = fst signedRepoEvents,
                    stateEvent = snd signedRepoEvents,
                    issuesImported = fst counts,
                    commentsImported = snd (snd counts),
                    prsImported = fst (snd counts),
                    profilesCreated = length (userProfiles c),
                    result_repo = r\<rparr>)))))"

text \<open>Step 1 (the repository events) and the rest, on the resolved repository.\<close>

definition importStages :: "nat \<Rightarrow> env \<Rightarrow> ImportResult action" where
  "importStages fuel env =
     bindM (convertRepoEvents env) (\<lambda>repoEvents.
     bindM (publishRepoEvents env repoEvents) (\<lambda>signedRepoEvents.
     bindM (streamEntities fuel env) (\<lambda>counts.
     completeImport env signedRepoEvents counts)))"

definition runImport :: "nat \<Rightarrow> host \<Rightarrow> string \<Rightarrow> string \<Rightarrow> ImportConfig \<Rightarrow> ImportResult action" where
  "runImport fuel h repoUrl token cfg =
     bindM (resolveRepository h repoUrl token cfg) (importStages fuel)"

text \<open>
  \<^verbatim>\<open>importRepository\<close>: rejected while another run is in flight; otherwise the \<^verbatim>\<open>try\<close>
  block on a fresh context. The \<^verbatim>\<open>catch\<close> rethrows the error (an abort as it is, any
  other as an \<^verbatim>\<open>Error\<close> with the same message) and the \<^verbatim>\<open>finally\<close> clears the flag, so
  the outcome and the effects are those of the block.
\<close>

definition importRepository ::
  "nat \<Rightarrow> host \<Rightarrow> bool \<Rightarrow> string \<Rightarrow> string \<Rightarrow> ImportConfig \<Rightarrow> ((error + ImportResult) \<times> ctx) option"
where
  "importRepository fuel h isImporting repoUrl token cfg =
     (if isImporting then Some (Inl ImportInProgress, newContext h)
      else runImport fuel h repoUrl token cfg (newContext h))"

text \<open>The check \<^verbatim>\<open>useImportRepo\<close> makes when the hook is created.\<close>

definition useImportRepo :: "host \<Rightarrow> error + unit" where
  "useImportRepo h =
     (if onSignEvent h = None \<and> eventIO h = None then Inl SignerRequired else Inr ())"

section \<open>Devices for stating and proving properties\<close>

text \<open>\<open>steps R m\<close>: however \<open>m\<close> ends (returning or throwing), the state it leaves is
  related by \<open>R\<close> to the state it started from.\<close>

definition steps :: "(ctx \<Rightarrow> ctx \<Rightarrow> bool) \<Rightarrow> 'a action \<Rightarrow> bool" where
  "steps R m = (\<forall>c r c'. m c = Some (r, c') \<longrightarrow> R c c')"

text \<open>\<open>extends P c c'\<close>: the trace of \<open>c'\<close> is the trace of \<open>c\<close> followed by effects that all
  satisfy \<open>P\<close>.\<close>

definition extends :: "(effect \<Rightarrow> bool) \<Rightarrow> ctx \<Rightarrow> ctx \<Rightarrow> bool" where
  "extends P c c' = (\<exists>new. trace c' = trace c @ new \<and> list_all P new)"

text \<open>\<open>keeps g c c'\<close>: the component \<open>g\<close> of the state is the same in \<open>c\<close> and \<open>c'\<close>.\<close>

definition keeps :: "(ctx \<Rightarrow> 'a) \<Rightarrow> ctx \<Rightarrow> ctx \<Rightarrow> bool" where
  "keeps g c c' = (g c' = g c)"

text \<open>\<open>quiet P\<close>: \<open>P\<close> allows the effects every stage makes (progress reports, provider
  requests, event fetches, sleeps).\<close>

definition quiet :: "(effect \<Rightarrow> bool) \<Rightarrow> bool" where
  "quiet P = ((\<forall>s a b. P (Progress s a b)) \<and> (\<forall>r. P (Request r)) \<and> (\<forall>i. P (FetchEvents i))
             \<and> (\<forall>d. P (Slept d)))"


definition terminates :: "'a action \<Rightarrow> bool" where
  "terminates m = (\<forall>c. m c \<noteq> None)"

text \<open>\<open>stepsAt c R m\<close>: \<open>steps\<close> for the run of \<open>m\<close> that starts in \<open>c\<close>.\<close>

definition stepsAt :: "ctx \<Rightarrow> (ctx \<Rightarrow> ctx \<Rightarrow> bool) \<Rightarrow> 'a action \<Rightarrow> bool" where
  "stepsAt c R m = (\<forall>r c'. m c = Some (r, c') \<longrightarrow> R c c')"

text \<open>\<open>ignoresIO g\<close>: \<open>g\<close> does not read the trace, the checkpoint count or the queue;
  \<open>ignoresCaches g\<close>: nor the two identity caches; \<open>ignoresProfiles g\<close>: nor the two
  profile maps.\<close>

definition ignoresIO :: "(ctx \<Rightarrow> 'a) \<Rightarrow> bool" where
  "ignoresIO g =
     ((\<forall>c f. g (trace_update f c) = g c) \<and> (\<forall>c f. g (checkpoints_update f c) = g c)
      \<and> (\<forall>c f. g (eventQueue_update f c) = g c))"

definition ignoresCaches :: "(ctx \<Rightarrow> 'a) \<Rightarrow> bool" where
  "ignoresCaches g =
     ((\<forall>c f. g (bridgedNostrPubkeys_update f c) = g c)
      \<and> (\<forall>c f. g (nip39CheckedKeys_update f c) = g c))"

definition ignoresProfiles :: "(ctx \<Rightarrow> 'a) \<Rightarrow> bool" where
  "ignoresProfiles g =
     ((\<forall>c f. g (userProfiles_update f c) = g c) \<and> (\<forall>c f. g (profileEvents_update f c) = g c))"

text \<open>An event handed to a publisher: the host's callback or \<^verbatim>\<open>eventIO.publishEvent\<close>.\<close>

fun isPublication :: "effect \<Rightarrow> bool" where
  "isPublication (Published e) = True"
| "isPublication (IOPublished t) = True"
| "isPublication _ = False"

text \<open>\<open>yields Q m\<close>: whatever \<open>m\<close> returns satisfies \<open>Q\<close>; \<open>yields (\<lambda>x. False) m\<close> says
  that \<open>m\<close> never returns.\<close>

definition yields :: "('a \<Rightarrow> bool) \<Rightarrow> 'a action \<Rightarrow> bool" where
  "yields Q m = (\<forall>c x c'. m c = Some (Inr x, c') \<longrightarrow> Q x)"



text \<open>The events a trace hands to \<^verbatim>\<open>onPublishEvent\<close>, in order; \<open>handed c\<close>: these and the
  events still in the queue, that is, every event given to the host's publisher or to the
  batched publisher so far.\<close>

fun publishedOf :: "effect list \<Rightarrow> NostrEvent list" where
  "publishedOf [] = []"
| "publishedOf (Published e # es) = e # publishedOf es"
| "publishedOf (x # es) = publishedOf es"


text \<open>\<open>ensures Q m\<close>: every state in which \<open>m\<close> returns satisfies \<open>Q\<close>; \<open>stable Q c c'\<close>: if
  \<open>Q\<close> holds in \<open>c\<close> it holds in \<open>c'\<close>.\<close>

definition ensures :: "(ctx \<Rightarrow> bool) \<Rightarrow> 'a action \<Rightarrow> bool" where
  "ensures Q m = (\<forall>c x c'. m c = Some (Inr x, c') \<longrightarrow> Q c')"

definition stable :: "(ctx \<Rightarrow> bool) \<Rightarrow> ctx \<Rightarrow> ctx \<Rightarrow> bool" where
  "stable Q c c' = (Q c \<longrightarrow> Q c')"





text \<open>\<open>traceOnly R\<close>: the relation \<open>R\<close> holds along every step that leaves the trace and the queue
  alone and along every traced call other than a hand-over to \<^verbatim>\<open>onPublishEvent\<close>;
  \<open>relayOnly env R\<close>: also along every enqueue and every flush of \<open>env\<close>. \<open>handedMore c c'\<close>:
  every event handed over in \<open>c\<close> is handed over in \<open>c'\<close>, in the same order and before any
  other.\<close>

definition traceOnly :: "(ctx \<Rightarrow> ctx \<Rightarrow> bool) \<Rightarrow> bool" where
  "traceOnly R =
     (reflp R \<and> transp R
      \<and> (\<forall>c c'. trace c' = trace c \<and> eventQueue c' = eventQueue c \<longrightarrow> R c c')
      \<and> (\<forall>e. publishedOf [e] = [] \<longrightarrow> steps R (logEffect e)))"

definition relayOnly :: "env \<Rightarrow> (ctx \<Rightarrow> ctx \<Rightarrow> bool) \<Rightarrow> bool" where
  "relayOnly env R =
     (traceOnly R \<and> (\<forall>ev. steps R (publishEventBatched env ev)) \<and> steps R (flushEventQueue env))"


section \<open>Write-once maps\<close>

text \<open>\<open>appendOnly g c c'\<close>: the association list \<open>g\<close> of \<open>c'\<close> is that of \<open>c\<close> followed by
  entries under new, pairwise different keys: nothing is overwritten and no key is written
  twice.\<close>

definition appendOnly :: "(ctx \<Rightarrow> ('k \<times> 'v) list) \<Rightarrow> ctx \<Rightarrow> ctx \<Rightarrow> bool" where
  "appendOnly g c c' =
     (\<exists>new. g c' = g c @ new \<and> distinct (map fst new) \<and> fst ` set new \<inter> fst ` set (g c) = {})"

text \<open>The two profile maps hold the same keys in the same order.\<close>

definition profilesInStep :: "ctx \<Rightarrow> bool" where
  "profilesInStep c = (map fst (profileEvents c) = map fst (userProfiles c))"

text \<open>From a state whose profile maps are in step, both maps are only appended to and
  stay in step.\<close>

definition profilesAppendOnly :: "ctx \<Rightarrow> ctx \<Rightarrow> bool" where
  "profilesAppendOnly c c' =
     (profilesInStep c \<longrightarrow>
        profilesInStep c' \<and> appendOnly userProfiles c c' \<and> appendOnly profileEvents c c')"

text \<open>The bridged-identity cache is left alone or written at key \<open>k\<close>.\<close>

definition touchesOnly :: "string \<Rightarrow> ctx \<Rightarrow> ctx \<Rightarrow> bool" where
  "touchesOnly k c c' =
     (bridgedNostrPubkeys c' = bridgedNostrPubkeys c
      \<or> (\<exists>pk. bridgedNostrPubkeys c' = AList.update k pk (bridgedNostrPubkeys c)))"



text \<open>The bridged-identity cache and the profile maps are written at most once per key.\<close>

definition writtenOnce :: "ctx \<Rightarrow> ctx \<Rightarrow> bool" where
  "writtenOnce c c' = (appendOnly bridgedNostrPubkeys c c' \<and> profilesAppendOnly c c')"





section \<open>The verdict of the identity bridge\<close>






text \<open>The profile maps and the two identity caches.\<close>

definition allMaps ::
  "ctx \<Rightarrow> profiles \<times> (string \<times> NostrEvent) list \<times> (string \<times> string) list \<times> string set"
where
  "allMaps c = (userProfiles c, profileEvents c, bridgedNostrPubkeys c, nip39CheckedKeys c)"



section \<open>Comments and their parents\<close>

text \<open>The issue or pull request an effect of the comment pipeline is for: the parent of a
  converted comment, and the parent whose comments a per-parent request lists.\<close>

fun commentParent :: "effect \<Rightarrow> nat option" where
  "commentParent (Converted (CommentItem p i) ts n) = Some p"
| "commentParent (Request (ReqListIssueComments p perPage page)) = Some p"
| "commentParent (Request (ReqListPullRequestComments p perPage page)) = Some p"
| "commentParent _ = None"

text \<open>\<open>hasParent c p\<close>: one of the two id maps of \<open>c\<close> holds an entry for the number \<open>p\<close>.\<close>

definition hasParent :: "ctx \<Rightarrow> nat \<Rightarrow> bool" where
  "hasParent c p = (map_of (issueEventIdMap c) p \<noteq> None \<or> map_of (prEventIdMap c) p \<noteq> None)"

text \<open>An effect that is for a parent is for one the id maps of \<open>c\<close> hold.\<close>

definition parentKnown :: "ctx \<Rightarrow> effect \<Rightarrow> bool" where
  "parentKnown c e = (case commentParent e of None \<Rightarrow> True | Some p \<Rightarrow> hasParent c p)"

text \<open>The two id maps.\<close>

definition idMaps :: "ctx \<Rightarrow> (nat \<times> string) list \<times> (nat \<times> string) list" where
  "idMaps c = (issueEventIdMap c, prEventIdMap c)"

text \<open>\<open>parentsKnown c c'\<close>: the id maps are unchanged, and every comment converted and every
  per-parent request made from \<open>c\<close> to \<open>c'\<close> is for a parent the id maps hold.\<close>

definition parentsKnown :: "ctx \<Rightarrow> ctx \<Rightarrow> bool" where
  "parentsKnown c c' = (idMaps c' = idMaps c \<and> extends (parentKnown c) c c')"

text \<open>An effect that is for a parent is for \<open>p\<close>.\<close>

definition forParent :: "nat \<Rightarrow> effect \<Rightarrow> bool" where
  "forParent p e = (case commentParent e of None \<Rightarrow> True | Some q \<Rightarrow> q = p)"

text \<open>\<open>onlyParent p c c'\<close>: as \<open>parentsKnown\<close>, for the one parent \<open>p\<close>.\<close>

definition onlyParent :: "nat \<Rightarrow> ctx \<Rightarrow> ctx \<Rightarrow> bool" where
  "onlyParent p c c' = (idMaps c' = idMaps c \<and> extends (forParent p) c c')"

section \<open>A concrete host and provider\<close>

text \<open>A small world on which the definitions can be run: a provider that serves fixed
  lists page by page, converters that stamp their template with the timestamp they are
  given, and host callbacks that always succeed.\<close>

definition paginate :: "'a list \<Rightarrow> nat \<Rightarrow> nat \<Rightarrow> 'a list thrown" where
  "paginate xs perPage page = Inr (take perPage (drop ((page - 1) * perPage) xs))"

definition demo_repo :: RepoMetadata where
  "demo_repo = \<lparr>repo_ref = 1, fullName = ''alice/demo'', repo_name = ''demo''\<rparr>"



definition demo_comment :: "string \<Rightarrow> nat \<Rightarrow> BulkComment" where
  "demo_comment cid parent =
     \<lparr>bulk_comment = \<lparr>comment_id = cid, comment_author = \<lparr>login = ''dave'', avatarUrl = None\<rparr>,
                       comment_createdAt = Some 5000, comment_payload = ''comment''\<rparr>,
      issueNumber = parent, isPullRequest = False\<rparr>"

definition demo_api :: "GitIssue list \<Rightarrow> GitPullRequest list \<Rightarrow> BulkComment list option \<Rightarrow> api" where
  "demo_api issues prs bulk =
     \<lparr>listIssues = (\<lambda>ow rp perPage page since. paginate issues perPage page),
      listPullRequests = (\<lambda>ow rp perPage page. paginate prs perPage page),
      listPullRequestCommits = None,
      listAllIssueComments =
        (case bulk of
           None \<Rightarrow> None
         | Some cs \<Rightarrow> Some (\<lambda>ow rp perPage page since. paginate cs perPage page)),
      listIssueComments = (\<lambda>ow rp n perPage page since. Inr []),
      listPullRequestComments = (\<lambda>ow rp n perPage page since. Inr []),
      forkRepoApi = (\<lambda>ow rp nm. Inr \<lparr>repo_ref = 2, fullName = ''me/'' @ nm, repo_name = nm\<rparr>),
      getRepo = (\<lambda>ow rp. Inr (Some demo_repo))\<rparr>"

definition demo_sign :: "EventTemplate \<Rightarrow> string \<Rightarrow> NostrEvent" where
  "demo_sign t key =
     \<lparr>ev_id = ''id-'' @ content t, ev_pubkey = key, ev_created_at = created_at t,
      ev_kind = kind t, ev_tags = tags t, ev_content = content t, ev_sig = ''sig''\<rparr>"

definition demo_lib :: "api \<Rightarrow> bool \<Rightarrow> core" where
  "demo_lib a own =
     \<lparr>parseRepoUrl = (\<lambda>url. Inr \<lparr>provider = ''github'', owner = ''alice'', repo = ''demo''\<rparr>),
      getGitServiceApiFromUrl = (\<lambda>url token. Inr a),
      validateTokenPermissions =
        (\<lambda>a' ow rp. Inr \<lparr>valid = True, hasRead = True, validation_error = None\<rparr>),
      checkRepoOwnership = (\<lambda>a' ow rp. Inr \<lparr>ownership_repo = Some demo_repo, isOwner = own\<rparr>),
      generatePlatformUserProfile =
        (\<lambda>platf u. \<lparr>pp_privkey = ''sk-'' @ u, pp_pubkey = ''pk-'' @ u,
                    pp_profileEvent =
                      \<lparr>ev_id = ''profile-'' @ u, ev_pubkey = ''pk-'' @ u, ev_created_at = 0,
                       ev_kind = 0, ev_tags = [], ev_content = u, ev_sig = ''sig''\<rparr>\<rparr>),
      getProfileMapKey = (\<lambda>platf u. platf @ '':'' @ u),
      convertRepoToNostrEvent =
        (\<lambda>r rs pk ts. \<lparr>created_at = ts, kind = 30617, tags = [], content = ''announcement''\<rparr>),
      convertRepoToStateEvent =
        (\<lambda>r ts. \<lparr>created_at = ts, kind = 30618, tags = [], content = ''state''\<rparr>),
      convertIssuesToNostrEvents =
        (\<lambda>is addr platf profs its ts.
           map (\<lambda>i. \<lparr>ci_event = \<lparr>created_at = ts, kind = 1621, tags = [],
                                  content = issue_payload i\<rparr>,
                      ci_privkey = ''sk-'' @ login (issue_author i)\<rparr>) is),
      convertIssueStatusesToEvents =
        (\<lambda>eid st closed pk addr its ts.
           [\<lparr>created_at = ts, kind = 1630, tags = [[''e'', eid]], content = ''status''\<rparr>]),
      convertCommentsToNostrEvents =
        (\<lambda>cs parent platf profs threads its ts.
           map (\<lambda>c. \<lparr>cc_event = \<lparr>created_at = ts, kind = 1111, tags = [[''e'', parent]],
                                  content = comment_payload c\<rparr>,
                      cc_privkey = ''sk-'' @ login (comment_author c),
                      platformCommentId = comment_id c\<rparr>) cs),
      convertPullRequestsToNostrEvents =
        (\<lambda>ps addr platf profs its ts commits.
           map (\<lambda>p. \<lparr>ci_event = \<lparr>created_at = ts, kind = 1618, tags = [],
                                  content = pr_payload p\<rparr>,
                      ci_privkey = ''sk-'' @ login (pr_author p)\<rparr>) ps),
      signEvent = demo_sign,
      nip19_decode = (\<lambda>s. Inl ''bad checksum'')\<rparr>"

definition demo_host :: "api \<Rightarrow> bool \<Rightarrow> host" where
  "demo_host a own =
     \<lparr>eventIO = None, onFetchEvents = None,
      onSignEvent = Some (\<lambda>t. Inr (demo_sign t ''me'')),
      onPublishEvent = Some (\<lambda>e. Fulfils ()),
      userPubkey = ''me'', lib = demo_lib a own, abortAfter = None, now = 1000000,
      fetchGist = (\<lambda>g. Inl ''offline'')\<rparr>"

definition demo_config :: ImportConfig where
  "demo_config =
     \<lparr>mirrorIssues = True, mirrorPullRequests = True, mirrorComments = True, sinceDate = None,
      relays = Some [''wss://relay.example''], relayBatchSize = Some 2,
      relayBatchDelay = Some 250, forkRepo = False, forkName = None\<rparr>"

definition demo_env :: "api \<Rightarrow> ImportConfig \<Rightarrow> env" where
  "demo_env a cfg =
     \<lparr>host = demo_host a True, api = a, platform = ''github'',
      parsed = \<lparr>provider = ''github'', owner = ''alice'', repo = ''demo''\<rparr>, config = cfg,
      batchSize = (case relayBatchSize cfg of None \<Rightarrow> 30 | Some b \<Rightarrow> b),
      batchDelay = (case relayBatchDelay cfg of None \<Rightarrow> 250 | Some d \<Rightarrow> d)\<rparr>"


definition demo_env0 :: env where
  "demo_env0 = demo_env (demo_api [] [] None) demo_config"

definition demo_ctx0 :: ctx where
  "demo_ctx0 = newContext (demo_host (demo_api [] [] None) True)"

text \<open>A host that supplies an \<^verbatim>\<open>EventIO\<close> and neither callback.\<close>

definition demo_io :: EventIO where
  "demo_io =
     \<lparr>io_publishEvent = (\<lambda>t. Inr \<lparr>ok = True, publish_error = None\<rparr>),
      io_fetchEvents = None\<rparr>"

definition demo_io_host :: host where
  "demo_io_host =
     (demo_host (demo_api [] [] None) True)
       \<lparr>eventIO := Some demo_io, onSignEvent := None, onPublishEvent := None\<rparr>"

definition demo_io_env :: env where
  "demo_io_env = (demo_env (demo_api [] [] None) demo_config)\<lparr>host := demo_io_host\<rparr>"

definition demo_template :: "string \<Rightarrow> EventTemplate" where
  "demo_template s = \<lparr>created_at = 0, kind = 1, tags = [], content = s\<rparr>"

text \<open>The state in which the demo repository is resolved (its owner imports it).\<close>

definition demo_resolved :: "host \<Rightarrow> ctx" where
  "demo_resolved h =
     (newContext h)
       \<lparr>finalRepo := Some demo_repo, repoAddr := ''30617:me:demo'',
        startTimestamp := 996400, currentTimestamp := 996400,
        trace := [Progress ParsingUrl None None, Progress (Connecting ''github'') None None,
                  Progress ValidatingToken None None, Request ReqValidateToken,
                  Progress CheckingOwnership None None, Request ReqCheckOwnership,
                  Progress FetchingMetadata None None, Request ReqGetRepo],
        checkpoints := 8\<rparr>"


text \<open>A host that supplies \<^verbatim>\<open>onSignEvent\<close> and no \<^verbatim>\<open>onPublishEvent\<close>.\<close>

definition demo_sign_only_host :: host where
  "demo_sign_only_host = (demo_host (demo_api [] [] None) True)\<lparr>onPublishEvent := None\<rparr>"








text \<open>A provider with the bulk comment endpoint that returns two comments, one on issue 1
  and one on number 7, and a state whose issue map holds issue 1 only.\<close>

definition demo_comments_env :: env where
  "demo_comments_env =
     demo_env (demo_api [] [] (Some [demo_comment ''c1'' 1, demo_comment ''c2'' 7])) demo_config"

definition demo_comments_ctx :: ctx where
  "demo_comments_ctx = demo_ctx0\<lparr>issueEventIdMap := [(1, ''id-issue'')]\<rparr>"

section \<open>Basic rules of the control-flow combinators\<close>

lemmas monad_defs = returnM_def throwM_def bindM_def modify_def getCtx_def tryCatch_def
  logEffect_def callOut_def throwIfAborted_def updateProgress_def withRateLimit_def

lemma stepsI: "(\<And>c r c'. m c = Some (r, c') \<Longrightarrow> R c c') \<Longrightarrow> steps R m"
  by (simp add: steps_def)

lemma stepsD: "steps R m \<Longrightarrow> m c = Some (r, c') \<Longrightarrow> R c c'"
  by (auto simp: steps_def)

lemma steps_returnM: "reflp R \<Longrightarrow> steps R (returnM x)"
  by (auto simp: steps_def returnM_def reflp_def)

lemma steps_throwM: "reflp R \<Longrightarrow> steps R (throwM e)"
  by (auto simp: steps_def throwM_def reflp_def)

lemma steps_getCtx: "reflp R \<Longrightarrow> steps R getCtx"
  by (auto simp: steps_def getCtx_def reflp_def)

lemma steps_modify: "(\<And>c. R c (f c)) \<Longrightarrow> steps R (modify f)"
  by (auto simp: steps_def modify_def)

lemma steps_bindM:
  assumes "transp R" "steps R m" "\<And>x. steps R (f x)"
  shows "steps R (bindM m f)"
proof (rule stepsI)
  fix c r c'
  assume run: "bindM m f c = Some (r, c')"
  show "R c c'"
  proof (cases "m c")
    case None
    with run show ?thesis by (simp add: bindM_def)
  next
    case (Some p)
    obtain r1 c1 where p: "p = (r1, c1)" by (cases p)
    have R1: "R c c1" using assms(2) Some p by (auto dest: stepsD)
    show ?thesis
    proof (cases r1)
      case (Inl e)
      with run Some p have "c' = c1" by (simp add: bindM_def)
      with R1 show ?thesis by simp
    next
      case (Inr x)
      with run Some p have "f x c1 = Some (r, c')" by (simp add: bindM_def)
      then have "R c1 c'" using assms(3) by (auto dest: stepsD)
      with R1 assms(1) show ?thesis by (auto dest: transpD)
    qed
  qed
qed

lemma steps_tryCatch:
  assumes "transp R" "steps R m" "\<And>e. steps R (h e)"
  shows "steps R (tryCatch m h)"
proof (rule stepsI)
  fix c r c'
  assume run: "tryCatch m h c = Some (r, c')"
  show "R c c'"
  proof (cases "m c")
    case None
    with run show ?thesis by (simp add: tryCatch_def)
  next
    case (Some p)
    obtain r1 c1 where p: "p = (r1, c1)" by (cases p)
    have R1: "R c c1" using assms(2) Some p by (auto dest: stepsD)
    show ?thesis
    proof (cases r1)
      case (Inr x)
      with run Some p have "c' = c1" by (simp add: tryCatch_def)
      with R1 show ?thesis by simp
    next
      case (Inl e)
      with run Some p have "h e c1 = Some (r, c')" by (simp add: tryCatch_def)
      then have "R c1 c'" using assms(3) by (auto dest: stepsD)
      with R1 assms(1) show ?thesis by (auto dest: transpD)
    qed
  qed
qed

lemma forM_Cons: "forM body (x # xs) s = bindM (body x s) (forM body xs)"
  by (rule ext) (simp add: bindM_def split: option.splits sum.splits prod.splits)

lemma forM_Nil: "forM body [] s = returnM s"
  by (rule ext) (simp add: returnM_def)

lemma steps_forM:
  assumes "reflp R" "transp R" "\<And>x s. x \<in> set xs \<Longrightarrow> steps R (body x s)"
  shows "steps R (forM body xs s)"
  using assms(3)
proof (induction xs arbitrary: s)
  case Nil
  show ?case unfolding forM_Nil by (rule steps_returnM[OF assms(1)])
next
  case (Cons x xs)
  have "\<And>s'. steps R (forM body xs s')"
    by (rule Cons.IH) (simp add: Cons.prems)
  then show ?case unfolding forM_Cons
    by (intro steps_bindM[OF assms(2)]) (simp_all add: Cons.prems)
qed

lemma whileM_Suc:
  "whileM (Suc fuel) body s =
     bindM (body s) (\<lambda>it. case it of Continue s' \<Rightarrow> whileM fuel body s' | Break r \<Rightarrow> returnM r)"
  by (rule ext) (simp add: bindM_def returnM_def split: option.splits sum.splits prod.splits iter.splits)

lemma steps_whileM:
  assumes "reflp R" "transp R" "\<And>s. steps R (body s)"
  shows "steps R (whileM fuel body s)"
proof (induction fuel arbitrary: s)
  case 0
  show ?case by (simp add: steps_def)
next
  case (Suc fuel)
  show ?case unfolding whileM_Suc
    by (rule steps_bindM[OF assms(2) assms(3)])
       (auto split: iter.splits intro: Suc steps_returnM[OF assms(1)])
qed

section \<open>The batched publisher\<close>

lemma publishedOf_append [simp]: "publishedOf (xs @ ys) = publishedOf xs @ publishedOf ys"
  by (induction xs rule: publishedOf.induct) simp_all

lemma publishedOf_map_Published [simp]: "publishedOf (map Published es) = es"
  by (induction es) simp_all

lemma bindM_Inr: "m c = Some (Inr x, c1) \<Longrightarrow> bindM m f c = f x c1"
  by (simp add: bindM_def)

lemma bindM_Inl: "m c = Some (Inl e, c1) \<Longrightarrow> bindM m f c = Some (Inl e, c1)"
  by (simp add: bindM_def)


















lemmas demo_defs = demo_env0_def demo_ctx0_def newContext_def demo_env_def demo_config_def demo_host_def

section \<open>Rules for relations between states\<close>

lemma reflp_extends [simp]: "reflp (extends P)"
  by (simp add: reflp_def extends_def)

lemma transp_extends [simp]: "transp (extends P)"
  by (auto simp: transp_def extends_def)

lemma reflp_keeps [simp]: "reflp (keeps g)"
  by (simp add: reflp_def keeps_def)

lemma transp_keeps [simp]: "transp (keeps g)"
  by (auto simp: transp_def keeps_def)

lemma steps_if:
  "(b \<Longrightarrow> steps R m1) \<Longrightarrow> (\<not> b \<Longrightarrow> steps R m2) \<Longrightarrow> steps R (if b then m1 else m2)"
  by simp

lemma steps_case_option:
  "(v = None \<Longrightarrow> steps R m1) \<Longrightarrow> (\<And>x. v = Some x \<Longrightarrow> steps R (m2 x))
   \<Longrightarrow> steps R (case v of None \<Rightarrow> m1 | Some x \<Rightarrow> m2 x)"
  by (cases v) simp_all

lemma steps_case_sum:
  "(\<And>x. v = Inl x \<Longrightarrow> steps R (m1 x)) \<Longrightarrow> (\<And>x. v = Inr x \<Longrightarrow> steps R (m2 x))
   \<Longrightarrow> steps R (case v of Inl x \<Rightarrow> m1 x | Inr x \<Rightarrow> m2 x)"
  by (cases v) simp_all

lemma steps_case_list:
  "(v = [] \<Longrightarrow> steps R m1) \<Longrightarrow> (\<And>x xs. v = x # xs \<Longrightarrow> steps R (m2 x xs))
   \<Longrightarrow> steps R (case v of [] \<Rightarrow> m1 | x # xs \<Rightarrow> m2 x xs)"
  by (cases v) simp_all

lemma steps_case_prod:
  "(\<And>a b. v = (a, b) \<Longrightarrow> steps R (m a b)) \<Longrightarrow> steps R (case v of (a, b) \<Rightarrow> m a b)"
  by (cases v) simp_all

lemma steps_case_iter:
  "(\<And>x. v = Continue x \<Longrightarrow> steps R (m1 x)) \<Longrightarrow> (\<And>x. v = Break x \<Longrightarrow> steps R (m2 x))
   \<Longrightarrow> steps R (case v of Continue x \<Rightarrow> m1 x | Break x \<Rightarrow> m2 x)"
  by (cases v) simp_all

lemma steps_case_called:
  "(\<And>x. v = Fulfils x \<Longrightarrow> steps R (m1 x)) \<Longrightarrow> (\<And>x. v = Rejects x \<Longrightarrow> steps R (m2 x))
   \<Longrightarrow> (\<And>x. v = ThrowsNow x \<Longrightarrow> steps R (m3 x))
   \<Longrightarrow> steps R (case v of Fulfils x \<Rightarrow> m1 x | Rejects x \<Rightarrow> m2 x | ThrowsNow x \<Rightarrow> m3 x)"
  by (cases v) simp_all

lemma steps_bind_getCtx: "(\<And>c. stepsAt c R (f c)) \<Longrightarrow> steps R (bindM getCtx f)"
  by (auto simp: steps_def stepsAt_def bindM_def getCtx_def)

lemma stepsAt_steps: "steps R m \<Longrightarrow> stepsAt c R m"
  by (auto simp: steps_def stepsAt_def)

lemma steps_let: "steps R (f v) \<Longrightarrow> steps R (let x = v in f x)"
  by simp

lemmas steps_intros = steps_bindM steps_tryCatch steps_forM steps_whileM steps_returnM
  steps_throwM steps_getCtx steps_if steps_case_option steps_case_sum steps_case_list
  steps_case_prod steps_case_iter steps_case_called steps_let

text \<open>Trace extension by the primitives.\<close>

lemma ext_throwIfAborted: "steps (extends P) (throwIfAborted h)"
  by (auto simp: steps_def extends_def throwIfAborted_def split: if_splits)

lemma ext_logEffect: "P e \<Longrightarrow> steps (extends P) (logEffect e)"
  by (auto simp: steps_def extends_def logEffect_def modify_def)

lemma ext_updateProgress: "quiet P \<Longrightarrow> steps (extends P) (updateProgress s a b)"
  by (simp add: updateProgress_def ext_logEffect quiet_def)

lemma ext_callOut: "P e \<Longrightarrow> steps (extends P) (callOut e outcome)"
  unfolding callOut_def
  by (intro steps_intros ext_logEffect) simp_all

lemma ext_withRateLimit: "quiet P \<Longrightarrow> steps (extends P) (withRateLimit env req outcome)"
  unfolding withRateLimit_def
  by (intro steps_intros ext_throwIfAborted ext_callOut) (simp_all add: quiet_def)

lemma ext_modify: "(\<And>c. trace (f c) = trace c) \<Longrightarrow> steps (extends P) (modify f)"
  by (auto simp: steps_def extends_def modify_def)

lemma ext_flush_any:
  assumes "\<And>e. P (Published e)" "\<And>d. P (Slept d)"
  shows "steps (extends P) (flushEventQueue env)"
  unfolding flushEventQueue_def handOver_def Let_def
  by (intro steps_intros ext_logEffect ext_modify) (simp_all add: assms)

lemma ext_enqueue_any:
  assumes "\<And>e. P (Published e)" "\<And>d. P (Slept d)"
  shows "steps (extends P) (publishEventBatched env ev)"
  unfolding publishEventBatched_def
  by (intro steps_intros ext_flush_any ext_modify) (simp_all add: assms)

lemma ext_flushEventQueue:
  "quiet P \<Longrightarrow> (\<And>e. P (Published e)) \<Longrightarrow> steps (extends P) (flushEventQueue env)"
  by (rule ext_flush_any) (simp_all add: quiet_def)

lemma ext_publishEventBatched:
  "quiet P \<Longrightarrow> (\<And>e. P (Published e)) \<Longrightarrow> steps (extends P) (publishEventBatched env ev)"
  by (rule ext_enqueue_any) (simp_all add: quiet_def)

lemma ext_verifyGitHubGistProof:
  "quiet P \<Longrightarrow> steps (extends P) (verifyGitHubGistProof env u p k)"
  unfolding verifyGitHubGistProof_def
  by (intro steps_intros ext_withRateLimit) simp_all

lemma ext_lookupProfileProof:
  "quiet P \<Longrightarrow> steps (extends P) (lookupProfileProof env u i k fe)"
  unfolding lookupProfileProof_def Let_def
  by (intro steps_intros ext_callOut ext_verifyGitHubGistProof ext_modify)
     (simp_all add: quiet_def)

lemma ext_lookupNip39BridgedPubkey:
  "quiet P \<Longrightarrow> steps (extends P) (lookupNip39BridgedPubkey env pl u)"
  unfolding lookupNip39BridgedPubkey_def Let_def
  by (intro steps_intros ext_lookupProfileProof ext_modify) simp_all

lemma ext_ensureUserProfile:
  "quiet P \<Longrightarrow> steps (extends P) (ensureUserProfile env u a)"
  unfolding ensureUserProfile_def Let_def
  by (intro steps_intros ext_lookupNip39BridgedPubkey ext_modify) simp_all

text \<open>Parts of the state a step leaves alone.\<close>

lemma keeps_throwIfAborted: "ignoresIO g \<Longrightarrow> steps (keeps g) (throwIfAborted h)"
  by (auto simp: steps_def keeps_def throwIfAborted_def ignoresIO_def split: if_splits)

lemma keeps_logEffect: "ignoresIO g \<Longrightarrow> steps (keeps g) (logEffect e)"
  by (auto simp: steps_def keeps_def logEffect_def modify_def ignoresIO_def)

lemma keeps_updateProgress: "ignoresIO g \<Longrightarrow> steps (keeps g) (updateProgress s a b)"
  by (simp add: updateProgress_def keeps_logEffect)

lemma keeps_callOut: "ignoresIO g \<Longrightarrow> steps (keeps g) (callOut e outcome)"
  unfolding callOut_def
  by (intro steps_intros keeps_logEffect) simp_all

lemma keeps_withRateLimit: "ignoresIO g \<Longrightarrow> steps (keeps g) (withRateLimit env req outcome)"
  unfolding withRateLimit_def
  by (intro steps_intros keeps_throwIfAborted keeps_callOut) simp_all

lemma keeps_modify: "(\<And>c. g (f c) = g c) \<Longrightarrow> steps (keeps g) (modify f)"
  by (auto simp: steps_def keeps_def modify_def)

lemma keeps_flushEventQueue: "ignoresIO g \<Longrightarrow> steps (keeps g) (flushEventQueue env)"
  unfolding flushEventQueue_def handOver_def Let_def
  by (intro steps_intros keeps_logEffect keeps_modify) (simp_all add: ignoresIO_def)

lemma keeps_publishEventBatched:
  "ignoresIO g \<Longrightarrow> steps (keeps g) (publishEventBatched env ev)"
  unfolding publishEventBatched_def
  by (intro steps_intros keeps_flushEventQueue keeps_modify) (simp_all add: ignoresIO_def)

lemma keeps_verifyGitHubGistProof:
  "ignoresIO g \<Longrightarrow> steps (keeps g) (verifyGitHubGistProof env u p k)"
  unfolding verifyGitHubGistProof_def
  by (intro steps_intros keeps_withRateLimit) simp_all

lemma keeps_lookupProfileProof:
  "ignoresIO g \<Longrightarrow> ignoresCaches g \<Longrightarrow> steps (keeps g) (lookupProfileProof env u i k fe)"
  unfolding lookupProfileProof_def Let_def
  by (intro steps_intros keeps_callOut keeps_verifyGitHubGistProof keeps_modify)
     (simp_all add: ignoresCaches_def)

lemma keeps_lookupNip39BridgedPubkey:
  "ignoresIO g \<Longrightarrow> ignoresCaches g \<Longrightarrow> steps (keeps g) (lookupNip39BridgedPubkey env pl u)"
  unfolding lookupNip39BridgedPubkey_def Let_def
  by (intro steps_intros keeps_lookupProfileProof keeps_modify) (simp_all add: ignoresCaches_def)

lemma keeps_ensureUserProfile:
  "ignoresIO g \<Longrightarrow> ignoresCaches g \<Longrightarrow> ignoresProfiles g
   \<Longrightarrow> steps (keeps g) (ensureUserProfile env u a)"
  unfolding ensureUserProfile_def Let_def
  by (intro steps_intros keeps_lookupNip39BridgedPubkey keeps_modify)
     (simp_all add: ignoresProfiles_def)


lemma terminatesD:
  assumes "terminates m"
  shows "\<exists>r c'. m c = Some (r, c')"
proof -
  from assms have "m c \<noteq> None" unfolding terminates_def by blast
  then obtain p where "m c = Some p" by blast
  then show ?thesis by (cases p) simp
qed









lemma terminates_bindM: "terminates m \<Longrightarrow> (\<And>x. terminates (f x)) \<Longrightarrow> terminates (bindM m f)"
  by (auto simp: terminates_def bindM_def split: option.splits sum.splits)

lemma terminates_throwM: "terminates (throwM e)"
  by (simp add: terminates_def throwM_def)

lemma terminates_throwIfAborted: "terminates (throwIfAborted h)"
  by (simp add: terminates_def throwIfAborted_def)

lemma terminates_callOut: "terminates (callOut e outcome)"
  by (auto simp: terminates_def callOut_def bindM_def logEffect_def modify_def throwM_def returnM_def
           split: sum.splits)

lemma terminates_withRateLimit: "terminates (withRateLimit env req outcome)"
  unfolding withRateLimit_def
  by (intro terminates_bindM terminates_throwIfAborted terminates_callOut)










text \<open>Actions that always return or throw.\<close>

lemma terminates_returnM: "terminates (returnM x)"
  by (simp add: terminates_def returnM_def)

lemma terminates_modify: "terminates (modify f)"
  by (simp add: terminates_def modify_def)

lemma terminates_getCtx: "terminates getCtx"
  by (simp add: terminates_def getCtx_def)

lemma terminates_logEffect: "terminates (logEffect e)"
  by (simp add: logEffect_def terminates_modify)

lemma terminates_updateProgress: "terminates (updateProgress s a b)"
  by (simp add: updateProgress_def terminates_logEffect)

lemma terminates_if: "terminates m1 \<Longrightarrow> terminates m2 \<Longrightarrow> terminates (if b then m1 else m2)"
  by simp

lemma terminates_case_option:
  "terminates m1 \<Longrightarrow> (\<And>x. terminates (m2 x))
   \<Longrightarrow> terminates (case v of None \<Rightarrow> m1 | Some x \<Rightarrow> m2 x)"
  by (cases v) simp_all

lemma terminates_case_sum:
  "(\<And>x. terminates (m1 x)) \<Longrightarrow> (\<And>x. terminates (m2 x))
   \<Longrightarrow> terminates (case v of Inl x \<Rightarrow> m1 x | Inr x \<Rightarrow> m2 x)"
  by (cases v) simp_all

lemma terminates_let: "terminates (f v) \<Longrightarrow> terminates (let x = v in f x)"
  by simp

lemmas terminates_intros = terminates_bindM terminates_returnM terminates_throwM
  terminates_modify terminates_getCtx terminates_logEffect terminates_updateProgress
  terminates_throwIfAborted terminates_callOut terminates_withRateLimit terminates_if
  terminates_case_option terminates_case_sum terminates_let

section \<open>Rules for what an action returns\<close>

lemma yieldsD: "yields Q m \<Longrightarrow> m c = Some (Inr x, c') \<Longrightarrow> Q x"
  by (auto simp: yields_def)

lemma yields_returnM: "Q x \<Longrightarrow> yields Q (returnM x)"
  by (simp add: yields_def returnM_def)

lemma yields_throwM: "yields Q (throwM e)"
  by (simp add: yields_def throwM_def)

lemma yields_bindM:
  assumes "yields P m" "\<And>x. P x \<Longrightarrow> yields Q (f x)"
  shows "yields Q (bindM m f)"
  unfolding yields_def
proof (intro allI impI)
  fix c y c'
  assume run: "bindM m f c = Some (Inr y, c')"
  then obtain x c1 where 1: "m c = Some (Inr x, c1)" and 2: "f x c1 = Some (Inr y, c')"
    by (auto simp: bindM_def split: option.splits sum.splits prod.splits)
  from assms(1) 1 have "P x" by (rule yieldsD)
  from assms(2)[OF this] 2 show "Q y" by (rule yieldsD)
qed

lemma yields_True: "yields (\<lambda>x. True) m"
  by (simp add: yields_def)

lemma yields_if:
  "(b \<Longrightarrow> yields Q m1) \<Longrightarrow> (\<not> b \<Longrightarrow> yields Q m2) \<Longrightarrow> yields Q (if b then m1 else m2)"
  by simp

lemma yields_case_option:
  "(v = None \<Longrightarrow> yields Q m1) \<Longrightarrow> (\<And>x. v = Some x \<Longrightarrow> yields Q (m2 x))
   \<Longrightarrow> yields Q (case v of None \<Rightarrow> m1 | Some x \<Rightarrow> m2 x)"
  by (cases v) simp_all

lemma yields_case_sum:
  "(\<And>x. v = Inl x \<Longrightarrow> yields Q (m1 x)) \<Longrightarrow> (\<And>x. v = Inr x \<Longrightarrow> yields Q (m2 x))
   \<Longrightarrow> yields Q (case v of Inl x \<Rightarrow> m1 x | Inr x \<Rightarrow> m2 x)"
  by (cases v) simp_all


section \<open>Only the profile manager writes the identity maps\<close>





















section \<open>Only traced calls and the batched publisher touch the trace and the queue\<close>


































section \<open>What holds when an action returns\<close>




lemma ensures_throwM: "ensures Q (throwM e)"
  by (simp add: ensures_def throwM_def)



lemma reflp_stable [simp]: "reflp (stable Q)"
  by (simp add: reflp_def stable_def)

lemma transp_stable [simp]: "transp (stable Q)"
  by (rule transpI) (simp add: stable_def)

section \<open>What is handed to the publisher only grows\<close>

lemma traceOnly_reflp: "traceOnly R \<Longrightarrow> reflp R"
  by (simp add: traceOnly_def)

lemma traceOnly_transp: "traceOnly R \<Longrightarrow> transp R"
  by (simp add: traceOnly_def)

lemma traceOnly_logEffect: "traceOnly R \<Longrightarrow> publishedOf [e] = [] \<Longrightarrow> steps R (logEffect e)"
  by (simp add: traceOnly_def)

lemma traceOnly_modify:
  "traceOnly R \<Longrightarrow> (\<And>c. trace (f c) = trace c \<and> eventQueue (f c) = eventQueue c)
   \<Longrightarrow> steps R (modify f)"
  by (rule steps_modify) (simp add: traceOnly_def)

lemma traceOnly_throwIfAborted: "traceOnly R \<Longrightarrow> steps R (throwIfAborted h)"
  by (rule stepsI) (auto simp: traceOnly_def throwIfAborted_def split: if_splits)

lemma traceOnly_updateProgress: "traceOnly R \<Longrightarrow> steps R (updateProgress s a b)"
  by (simp add: updateProgress_def traceOnly_logEffect)

lemma traceOnly_callOut:
  "traceOnly R \<Longrightarrow> publishedOf [e] = [] \<Longrightarrow> steps R (callOut e outcome)"
  unfolding callOut_def
  by (intro steps_intros traceOnly_logEffect) (simp_all add: traceOnly_reflp traceOnly_transp)

lemma traceOnly_withRateLimit: "traceOnly R \<Longrightarrow> steps R (withRateLimit env req outcome)"
  unfolding withRateLimit_def
  by (intro steps_intros traceOnly_throwIfAborted traceOnly_callOut)
     (simp_all add: traceOnly_reflp traceOnly_transp)

lemmas traceOnly_leaves = traceOnly_throwIfAborted traceOnly_updateProgress traceOnly_callOut
  traceOnly_withRateLimit traceOnly_logEffect

lemmas traceOnly_simps = traceOnly_reflp traceOnly_transp

lemma traceOnly_ensureUserProfile: "traceOnly R \<Longrightarrow> steps R (ensureUserProfile env u a)"
  unfolding ensureUserProfile_def lookupNip39BridgedPubkey_def lookupProfileProof_def
    verifyGitHubGistProof_def Let_def
  by (intro steps_intros traceOnly_leaves traceOnly_modify) (simp_all add: traceOnly_simps)

lemma relayOnly_trace: "relayOnly env R \<Longrightarrow> traceOnly R"
  by (simp add: relayOnly_def)

lemma relayOnly_enqueue: "relayOnly env R \<Longrightarrow> steps R (publishEventBatched env ev)"
  by (simp add: relayOnly_def)

lemma relayOnly_flush: "relayOnly env R \<Longrightarrow> steps R (flushEventQueue env)"
  by (simp add: relayOnly_def)

lemmas relayOnly_leaves =
  traceOnly_throwIfAborted[OF relayOnly_trace] traceOnly_updateProgress[OF relayOnly_trace]
  traceOnly_callOut[OF relayOnly_trace] traceOnly_withRateLimit[OF relayOnly_trace]
  traceOnly_logEffect[OF relayOnly_trace] traceOnly_ensureUserProfile[OF relayOnly_trace]
  relayOnly_enqueue relayOnly_flush

lemmas relayOnly_simps = traceOnly_reflp[OF relayOnly_trace] traceOnly_transp[OF relayOnly_trace]



lemma relay_fetchPrCommits: "relayOnly env R \<Longrightarrow> steps R (fetchPrCommits fuel env n)"
  unfolding fetchPrCommits_def prCommitsPage_def
  by (intro steps_intros relayOnly_leaves) (simp_all add: relayOnly_simps)




section \<open>Resolving the repository\<close>

lemma quiet_not_publication: "quiet (\<lambda>e. \<not> isPublication e)"
  by (simp add: quiet_def)

lemma ext_initializeImportContext:
  "quiet P \<Longrightarrow> steps (extends P) (initializeImportContext h url token cfg)"
  unfolding initializeImportContext_def
  by (intro steps_intros ext_updateProgress ext_throwIfAborted) simp_all

lemma ext_validateTokenAndOwnership:
  "quiet P \<Longrightarrow> steps (extends P) (validateTokenAndOwnership env)"
  unfolding validateTokenAndOwnership_def
  by (intro steps_intros ext_updateProgress ext_throwIfAborted ext_withRateLimit) simp_all

lemma ext_ensureForkedRepo:
  "quiet P \<Longrightarrow> steps (extends P) (ensureForkedRepo env own)"
  unfolding ensureForkedRepo_def Let_def
  by (intro steps_intros ext_updateProgress ext_throwIfAborted ext_withRateLimit) simp_all

lemma ext_fetchRepoMetadata:
  "quiet P \<Longrightarrow> steps (extends P) (fetchRepoMetadata env r)"
  unfolding fetchRepoMetadata_def
  by (intro steps_intros ext_updateProgress ext_throwIfAborted ext_withRateLimit) simp_all

lemma ext_resolveRepository:
  "quiet P \<Longrightarrow> steps (extends P) (resolveRepository h url token cfg)"
  unfolding resolveRepository_def
  by (intro steps_intros ext_initializeImportContext ext_validateTokenAndOwnership
        ext_ensureForkedRepo ext_fetchRepoMetadata ext_modify) simp_all

lemma ext_convertRepoEvents:
  "quiet P \<Longrightarrow> steps (extends P) (convertRepoEvents env)"
  unfolding convertRepoEvents_def Let_def
  by (intro steps_intros ext_updateProgress ext_throwIfAborted) simp_all

lemma yields_initializeImportContext:
  "yields (\<lambda>env. host env = h \<and> config env = cfg) (initializeImportContext h url token cfg)"
  unfolding initializeImportContext_def
  by (intro yields_bindM[where P="\<lambda>x. True"] yields_True yields_case_sum yields_if
        yields_throwM yields_returnM) simp_all

lemma yields_resolveRepository:
  "yields (\<lambda>env. host env = h \<and> config env = cfg) (resolveRepository h url token cfg)"
  unfolding resolveRepository_def
  apply (rule yields_bindM[OF yields_initializeImportContext])
  apply (intro yields_bindM[where P="\<lambda>x. True"] yields_True yields_case_option yields_throwM
          yields_returnM)
  apply simp
  done

lemma resolve_owner:
  assumes "abortAfter h = None"
    and "parseRepoUrl (lib h) repoUrl = Inr p"
    and "\<not> (token = [] \<or> list_all isSpace token)"
    and "getGitServiceApiFromUrl (lib h) repoUrl token = Inr a"
    and "validateTokenPermissions (lib h) a (owner p) (repo p) = Inr tv"
    and "valid tv" and "hasRead tv"
    and "checkRepoOwnership (lib h) a (owner p) (repo p) = Inr ow"
    and "ownership_repo ow = Some r" and "isOwner ow"
    and "getRepo a (owner p) (repo p) = Inr (Some fr)"
  shows "resolveRepository h repoUrl token cfg (newContext h) =
     Some (Inr \<lparr>host = h, api = a, platform = provider p, parsed = p, config = cfg,
                batchSize = (case relayBatchSize cfg of None \<Rightarrow> 30 | Some b \<Rightarrow> b),
                batchDelay = (case relayBatchDelay cfg of None \<Rightarrow> 250 | Some d \<Rightarrow> d)\<rparr>,
           (newContext h)
             \<lparr>finalRepo := Some fr,
              repoAddr := ''30617:'' @ userPubkey h @ '':'' @ repoNameOf fr,
              startTimestamp := now h - 3600,
              currentTimestamp := now h - 3600,
              trace := [Progress ParsingUrl None None, Progress (Connecting (provider p)) None None,
                        Progress ValidatingToken None None, Request ReqValidateToken,
                        Progress CheckingOwnership None None, Request ReqCheckOwnership,
                        Progress FetchingMetadata None None, Request ReqGetRepo],
              checkpoints := 8\<rparr>)"
  using assms
  by (simp add: resolveRepository_def initializeImportContext_def validateTokenAndOwnership_def
        ensureForkedRepo_def fetchRepoMetadata_def newContext_def monad_defs)

section \<open>The concrete host\<close>

lemma demo_host_sel:
  "eventIO (demo_host a own) = None"
  "onFetchEvents (demo_host a own) = None"
  "onSignEvent (demo_host a own) = Some (\<lambda>t. Inr (demo_sign t ''me''))"
  "onPublishEvent (demo_host a own) = Some (\<lambda>e. Fulfils ())"
  "userPubkey (demo_host a own) = ''me''"
  "lib (demo_host a own) = demo_lib a own"
  "abortAfter (demo_host a own) = None"
  "now (demo_host a own) = 1000000"
  "fetchGist (demo_host a own) = (\<lambda>g. Inl ''offline'')"
  by (simp_all add: demo_host_def)

lemma demo_io_host_sel:
  "eventIO demo_io_host = Some demo_io"
  "onFetchEvents demo_io_host = None"
  "onSignEvent demo_io_host = None"
  "onPublishEvent demo_io_host = None"
  "userPubkey demo_io_host = ''me''"
  "lib demo_io_host = demo_lib (demo_api [] [] None) True"
  "abortAfter demo_io_host = None"
  "now demo_io_host = 1000000"
  by (simp_all add: demo_io_host_def demo_host_def)

lemma demo_lib_sel:
  "parseRepoUrl (demo_lib a own) url = Inr \<lparr>provider = ''github'', owner = ''alice'', repo = ''demo''\<rparr>"
  "getGitServiceApiFromUrl (demo_lib a own) url token = Inr a"
  "validateTokenPermissions (demo_lib a own) a' ow rp = Inr \<lparr>valid = True, hasRead = True, validation_error = None\<rparr>"
  "checkRepoOwnership (demo_lib a own) a' ow rp = Inr \<lparr>ownership_repo = Some demo_repo, isOwner = own\<rparr>"
  "getProfileMapKey (demo_lib a own) platf u = platf @ '':'' @ u"
  "convertRepoToNostrEvent (demo_lib a own) r rs pk ts = \<lparr>created_at = ts, kind = 30617, tags = [], content = ''announcement''\<rparr>"
  "convertRepoToStateEvent (demo_lib a own) r ts = \<lparr>created_at = ts, kind = 30618, tags = [], content = ''state''\<rparr>"
  "signEvent (demo_lib a own) = demo_sign"
  by (simp_all add: demo_lib_def)

lemma demo_api_sel:
  "listIssues (demo_api issues prs bulk) ow rp perPage page since = paginate issues perPage page"
  "listPullRequests (demo_api issues prs bulk) ow rp perPage page = paginate prs perPage page"
  "listPullRequestCommits (demo_api issues prs bulk) = None"
  "getRepo (demo_api issues prs bulk) ow rp = Inr (Some demo_repo)"
  by (simp_all add: demo_api_def)

lemma token_not_blank: "\<not> (''token'' = [] \<or> list_all isSpace ''token'')"
  by (simp add: isSpace_def inRange_def)

lemma demo_resolve:
  assumes "getRepo a ''alice'' ''demo'' = Inr (Some demo_repo)"
    and "abortAfter h = None" "now h = 1000000" "userPubkey h = ''me''" "lib h = demo_lib a True"
  shows "resolveRepository h ''https://github.com/alice/demo'' ''token'' cfg (newContext h) =
           Some (Inr \<lparr>host = h, api = a, platform = ''github'',
                      parsed = \<lparr>provider = ''github'', owner = ''alice'', repo = ''demo''\<rparr>,
                      config = cfg,
                      batchSize = (case relayBatchSize cfg of None \<Rightarrow> 30 | Some b \<Rightarrow> b),
                      batchDelay = (case relayBatchDelay cfg of None \<Rightarrow> 250 | Some d \<Rightarrow> d)\<rparr>,
                 demo_resolved h)"
  using resolve_owner[of h "''https://github.com/alice/demo''"
        "\<lparr>provider = ''github'', owner = ''alice'', repo = ''demo''\<rparr>" "''token''" a
        "\<lparr>valid = True, hasRead = True, validation_error = None\<rparr>"
        "\<lparr>ownership_repo = Some demo_repo, isOwner = True\<rparr>" demo_repo demo_repo cfg]
      token_not_blank assms
  by (simp add: demo_lib_sel demo_resolved_def)
     (simp add: demo_repo_def repoNameOf_def)

section \<open>Importing without owning the repository\<close>

text \<open>
  Claim C6. When the token is valid, the authenticated user does not own the repository
  and forking is disabled, \<^const>\<open>importRepository\<close> throws the fork-required error right after
  the ownership request: the trace holds only the progress reports and the two requests
  made so far, no event has been handed to a publisher, and the queue and the profile
  map are empty.
\<close>

theorem fork_required_publishes_nothing:
  assumes "abortAfter h = None"
    and "parseRepoUrl (lib h) repoUrl = Inr p"
    and "\<not> (token = [] \<or> list_all isSpace token)"
    and "getGitServiceApiFromUrl (lib h) repoUrl token = Inr a"
    and "validateTokenPermissions (lib h) a (owner p) (repo p) = Inr tv"
    and "valid tv" and "hasRead tv"
    and "checkRepoOwnership (lib h) a (owner p) (repo p) = Inr ow"
    and "ownership_repo ow = Some r" and "\<not> isOwner ow"
    and "\<not> forkRepo cfg"
  shows "\<exists>c. importRepository fuel h False repoUrl token cfg = Some (Inl ForkRequired, c)
           \<and> trace c = [Progress ParsingUrl None None, Progress (Connecting (provider p)) None None,
                        Progress ValidatingToken None None, Request ReqValidateToken,
                        Progress CheckingOwnership None None, Request ReqCheckOwnership]
           \<and> filter isPublication (trace c) = []
           \<and> eventQueue c = [] \<and> profileEvents c = []"
  using assms
  by (simp add: importRepository_def runImport_def resolveRepository_def
        initializeImportContext_def validateTokenAndOwnership_def ensureForkedRepo_def
        newContext_def monad_defs)

theorem fork_required_publishes_nothing_witness:
  "\<exists>c. importRepository 0 (demo_host (demo_api [] [] None) False) False ''https://github.com/alice/demo''
          ''token'' demo_config = Some (Inl ForkRequired, c)
       \<and> filter isPublication (trace c) = [] \<and> eventQueue c = []"
  using fork_required_publishes_nothing
    [of "demo_host (demo_api [] [] None) False" "''https://github.com/alice/demo''"
        "\<lparr>provider = ''github'', owner = ''alice'', repo = ''demo''\<rparr>" "''token''"
        "demo_api [] [] None" "\<lparr>valid = True, hasRead = True, validation_error = None\<rparr>"
        "\<lparr>ownership_repo = Some demo_repo, isOwner = False\<rparr>" demo_repo demo_config 0]
    token_not_blank
  by (simp add: demo_host_sel demo_lib_sel) (auto simp: demo_config_def)

section \<open>Signing and publishing the repository events\<close>

lemma terminates_resolveRepository: "terminates (resolveRepository h url token cfg)"
  unfolding resolveRepository_def initializeImportContext_def validateTokenAndOwnership_def
    ensureForkedRepo_def fetchRepoMetadata_def
  by (intro terminates_intros)

lemma terminates_convertRepoEvents: "terminates (convertRepoEvents env)"
  unfolding convertRepoEvents_def
  by (intro terminates_intros)

lemma terminates_publishRepoEvents: "terminates (publishRepoEvents env re)"
  unfolding publishRepoEvents_def
  by (intro terminates_intros)

lemma publishRepoEvents_incomplete:
  assumes "onSignEvent (host env) = None \<or> onPublishEvent (host env) = None"
  shows "yields (\<lambda>x. False) (publishRepoEvents env re)"
    and "steps (extends (\<lambda>e. \<not> isPublication e)) (publishRepoEvents env re)"
proof -
  show "yields (\<lambda>x. False) (publishRepoEvents env re)"
    unfolding publishRepoEvents_def using assms
    by (intro yields_bindM[where P="\<lambda>x. True"] yields_True yields_case_option yields_throwM)
       auto
  show "steps (extends (\<lambda>e. \<not> isPublication e)) (publishRepoEvents env re)"
    unfolding publishRepoEvents_def using assms
    by (intro steps_intros ext_updateProgress ext_throwIfAborted ext_callOut)
       (auto simp: quiet_not_publication)
qed

lemma importStages_incomplete:
  assumes "onSignEvent (host env) = None \<or> onPublishEvent (host env) = None"
  shows "\<exists>e c'. importStages fuel env c = Some (Inl e, c')
               \<and> extends (\<lambda>e. \<not> isPublication e) c c'"
proof -
  obtain r1 c1 where 1: "convertRepoEvents env c = Some (r1, c1)"
    using terminatesD[OF terminates_convertRepoEvents] by blast
  have e1: "extends (\<lambda>e. \<not> isPublication e) c c1"
    by (rule stepsD[OF ext_convertRepoEvents[OF quiet_not_publication] 1])
  show ?thesis
  proof (cases r1)
    case (Inl e)
    then show ?thesis using 1 e1 by (auto simp: importStages_def bindM_def)
  next
    case (Inr re)
    obtain r2 c2 where 2: "publishRepoEvents env re c1 = Some (r2, c2)"
      using terminatesD[OF terminates_publishRepoEvents] by blast
    have e2: "extends (\<lambda>e. \<not> isPublication e) c1 c2"
      by (rule stepsD[OF publishRepoEvents_incomplete(2)[OF assms] 2])
    obtain e where "r2 = Inl e"
      using yieldsD[OF publishRepoEvents_incomplete(1)[OF assms], of re c1] 2
      by (cases r2) auto
    then show ?thesis
      using 1 2 Inr transpD[OF transp_extends e1 e2]
      by (auto simp: importStages_def bindM_def)
  qed
qed

lemma runImport_incomplete:
  assumes "onSignEvent h = None \<or> onPublishEvent h = None"
  shows "\<exists>e c'. runImport fuel h url token cfg c = Some (Inl e, c')
               \<and> extends (\<lambda>e. \<not> isPublication e) c c'"
proof -
  obtain r1 c1 where 1: "resolveRepository h url token cfg c = Some (r1, c1)"
    using terminatesD[OF terminates_resolveRepository] by blast
  have e1: "extends (\<lambda>e. \<not> isPublication e) c c1"
    by (rule stepsD[OF ext_resolveRepository[OF quiet_not_publication] 1])
  show ?thesis
  proof (cases r1)
    case (Inl e)
    then show ?thesis using 1 e1 by (auto simp: runImport_def bindM_def)
  next
    case (Inr env)
    then have "host env = h" using yieldsD[OF yields_resolveRepository] 1 by fastforce
    with assms obtain e c' where 2: "importStages fuel env c1 = Some (Inl e, c')"
      and e2: "extends (\<lambda>e. \<not> isPublication e) c1 c'"
      using importStages_incomplete[of env fuel c1] by auto
    show ?thesis
      using 1 2 Inr transpD[OF transp_extends e1 e2]
      by (auto simp: runImport_def bindM_def)
  qed
qed

lemma extends_from_empty:
  "extends P c c' \<Longrightarrow> trace c = [] \<Longrightarrow> list_all P (trace c')"
  by (auto simp: extends_def)

text \<open>
  Claim C3, as amended. The repository announcement and state events are signed with
  \<^verbatim>\<open>onSignEvent\<close> and published with \<^verbatim>\<open>onPublishEvent\<close>; an \<^verbatim>\<open>EventIO\<close> does not replace
  them, and the host must supply both. Every run of a host that lacks one of the two
  callbacks ends in an error, whatever the fuel, with nothing handed to a publisher. A
  host without \<^verbatim>\<open>onSignEvent\<close> passes the check of \<^const>\<open>useImportRepo\<close> if it has an
  \<^verbatim>\<open>EventIO\<close>, and \<^const>\<open>publishRepoEvents\<close> then throws the error that names the \<^verbatim>\<open>EventIO\<close>.
  A host with \<^verbatim>\<open>onSignEvent\<close> and without \<^verbatim>\<open>onPublishEvent\<close> has both templates signed, and
  \<^const>\<open>publishRepoEvents\<close> then throws the error that asks for the publish callback. With
  both callbacks, and when they succeed, the two templates are signed and the two signed
  events published, in this order.
\<close>

theorem repo_events_need_both_callbacks:
  "(onSignEvent h = None \<or> onPublishEvent h = None \<longrightarrow>
      (\<forall>fuel busy url token cfg.
          \<exists>e c. importRepository fuel h busy url token cfg = Some (Inl e, c)
                \<and> filter isPublication (trace c) = []))
   \<and> (onSignEvent h = None \<and> eventIO h \<noteq> None \<longrightarrow> useImportRepo h = Inr ())
   \<and> (abortAfter (host env) = None \<and> onSignEvent (host env) = None \<and> eventIO (host env) \<noteq> None \<longrightarrow>
        (\<exists>c'. publishRepoEvents env (t1, t2) c = Some (Inl EventIOCannotSignRepoEvents, c')
              \<and> trace c' = trace c @ [Progress PublishingRepoEvents None None]))
   \<and> (abortAfter (host env) = None \<and> onSignEvent (host env) = Some sign
        \<and> onPublishEvent (host env) = None \<and> sign t1 = Inr e1 \<and> sign t2 = Inr e2 \<longrightarrow>
        (\<exists>c'. publishRepoEvents env (t1, t2) c
                = Some (Inl (case eventIO (host env) of
                               None \<Rightarrow> PublishCallbackMissing
                             | Some io \<Rightarrow> PublishCallbackRequired), c')
              \<and> trace c' = trace c @ [Progress PublishingRepoEvents None None, Signed t1,
                                       Signed t2]))
   \<and> (abortAfter (host env) = None \<and> onSignEvent (host env) = Some sign
        \<and> onPublishEvent (host env) = Some publish
        \<and> sign t1 = Inr e1 \<and> sign t2 = Inr e2
        \<and> awaited (publish e1) = Inr () \<and> awaited (publish e2) = Inr () \<longrightarrow>
        (\<exists>c'. publishRepoEvents env (t1, t2) c = Some (Inr (e1, e2), c')
              \<and> trace c' = trace c @ [Progress PublishingRepoEvents None None, Signed t1, Signed t2,
                                       Published e1, Published e2]))"
proof (intro conjI impI allI)
  fix fuel busy url token cfg
  assume inc: "onSignEvent h = None \<or> onPublishEvent h = None"
  show "\<exists>e c. importRepository fuel h busy url token cfg = Some (Inl e, c)
              \<and> filter isPublication (trace c) = []"
  proof (cases busy)
    case True
    then show ?thesis by (simp add: importRepository_def newContext_def)
  next
    case False
    from runImport_incomplete[OF inc, of fuel url token cfg "newContext h"]
    obtain e c where run: "runImport fuel h url token cfg (newContext h) = Some (Inl e, c)"
      and ext: "extends (\<lambda>e. \<not> isPublication e) (newContext h) c"
      by blast
    from ext have "list_all (\<lambda>e. \<not> isPublication e) (trace c)"
      by (rule extends_from_empty) (simp add: newContext_def)
    then have "filter isPublication (trace c) = []"
      by (simp add: list_all_iff filter_empty_conv)
    with run False show ?thesis by (simp add: importRepository_def)
  qed
next
  assume "onSignEvent h = None \<and> eventIO h \<noteq> None"
  then show "useImportRepo h = Inr ()" by (simp add: useImportRepo_def)
next
  assume "abortAfter (host env) = None \<and> onSignEvent (host env) = None \<and> eventIO (host env) \<noteq> None"
  then show "\<exists>c'. publishRepoEvents env (t1, t2) c = Some (Inl EventIOCannotSignRepoEvents, c')
              \<and> trace c' = trace c @ [Progress PublishingRepoEvents None None]"
    by (auto simp: publishRepoEvents_def monad_defs)
next
  assume "abortAfter (host env) = None \<and> onSignEvent (host env) = Some sign
        \<and> onPublishEvent (host env) = None \<and> sign t1 = Inr e1 \<and> sign t2 = Inr e2"
  then show "\<exists>c'. publishRepoEvents env (t1, t2) c
                = Some (Inl (case eventIO (host env) of
                               None \<Rightarrow> PublishCallbackMissing
                             | Some io \<Rightarrow> PublishCallbackRequired), c')
              \<and> trace c' = trace c @ [Progress PublishingRepoEvents None None, Signed t1,
                                       Signed t2]"
    by (auto simp: publishRepoEvents_def monad_defs split: option.splits)
next
  assume "abortAfter (host env) = None \<and> onSignEvent (host env) = Some sign
        \<and> onPublishEvent (host env) = Some publish
        \<and> sign t1 = Inr e1 \<and> sign t2 = Inr e2
        \<and> awaited (publish e1) = Inr () \<and> awaited (publish e2) = Inr ()"
  then show "\<exists>c'. publishRepoEvents env (t1, t2) c = Some (Inr (e1, e2), c')
              \<and> trace c' = trace c @ [Progress PublishingRepoEvents None None, Signed t1, Signed t2,
                                       Published e1, Published e2]"
    by (auto simp: publishRepoEvents_def monad_defs)
qed

lemma demo_io_run:
  "runImport 5 demo_io_host ''https://github.com/alice/demo'' ''token'' demo_config
          (newContext demo_io_host)
        = Some (Inl EventIOCannotSignRepoEvents,
                (demo_resolved demo_io_host)
                  \<lparr>trace := trace (demo_resolved demo_io_host)
                             @ [Progress ConvertingRepo None None,
                                Progress PublishingRepoEvents None None],
                   checkpoints := 10\<rparr>)"
proof -
  have r: "resolveRepository demo_io_host ''https://github.com/alice/demo'' ''token'' demo_config
             (newContext demo_io_host)
           = Some (Inr demo_io_env, demo_resolved demo_io_host)"
    by (subst demo_resolve[of "demo_api [] [] None"])
       (simp_all add: demo_api_sel demo_io_host_sel demo_env_def demo_io_env_def)
  show ?thesis
    unfolding runImport_def
    apply (simp add: bindM_def r)
    apply (simp add: importStages_def convertRepoEvents_def publishRepoEvents_def monad_defs
        demo_resolved_def newContext_def demo_config_def demo_env_def demo_io_host_sel
        demo_io_env_def)
    done
qed

theorem repo_events_need_both_callbacks_witness:
  "onSignEvent demo_io_host = None \<and> eventIO demo_io_host \<noteq> None
   \<and> useImportRepo demo_io_host = Inr ()
   \<and> (\<exists>e c. importRepository 5 demo_io_host False ''https://github.com/alice/demo'' ''token''
               demo_config = Some (Inl e, c) \<and> filter isPublication (trace c) = [])
   \<and> (\<exists>c'. publishRepoEvents demo_io_env (demo_template ''a'', demo_template ''s'') demo_ctx0
            = Some (Inl EventIOCannotSignRepoEvents, c'))
   \<and> onPublishEvent demo_sign_only_host = None
   \<and> (\<exists>e c. importRepository 5 demo_sign_only_host False ''https://github.com/alice/demo''
               ''token'' demo_config = Some (Inl e, c) \<and> filter isPublication (trace c) = [])
   \<and> (\<exists>c'. publishRepoEvents (demo_env0\<lparr>host := demo_sign_only_host\<rparr>)
              (demo_template ''a'', demo_template ''s'') demo_ctx0
            = Some (Inl PublishCallbackMissing, c')
          \<and> trace c' = [Progress PublishingRepoEvents None None, Signed (demo_template ''a''),
                         Signed (demo_template ''s'')])
   \<and> (\<exists>c'. publishRepoEvents demo_env0 (demo_template ''a'', demo_template ''s'') demo_ctx0
            = Some (Inr (demo_sign (demo_template ''a'') ''me'', demo_sign (demo_template ''s'') ''me''), c')
          \<and> trace c' = [Progress PublishingRepoEvents None None, Signed (demo_template ''a''),
                         Signed (demo_template ''s''),
                         Published (demo_sign (demo_template ''a'') ''me''),
                         Published (demo_sign (demo_template ''s'') ''me'')])"
proof -
  note T1 = repo_events_need_both_callbacks
    [of demo_io_host demo_io_env "demo_template ''a''" "demo_template ''s''" demo_ctx0]
  note T2 = repo_events_need_both_callbacks
    [of demo_sign_only_host "demo_env0\<lparr>host := demo_sign_only_host\<rparr>"
        "demo_template ''a''" "demo_template ''s''" demo_ctx0
        "\<lambda>t. Inr (demo_sign t ''me'')"
        "demo_sign (demo_template ''a'') ''me''" "demo_sign (demo_template ''s'') ''me''"]
  note T3 = repo_events_need_both_callbacks
    [of demo_io_host demo_env0 "demo_template ''a''" "demo_template ''s''" demo_ctx0
        "\<lambda>t. Inr (demo_sign t ''me'')"
        "demo_sign (demo_template ''a'') ''me''" "demo_sign (demo_template ''s'') ''me''"
        "\<lambda>e. Fulfils ()"]
  have a: "onSignEvent demo_io_host = None" "eventIO demo_io_host \<noteq> None"
    by (simp_all add: demo_io_host_sel)
  have b: "useImportRepo demo_io_host = Inr ()"
    using T1 a by blast
  have c: "\<exists>e c. importRepository 5 demo_io_host False ''https://github.com/alice/demo'' ''token''
               demo_config = Some (Inl e, c) \<and> filter isPublication (trace c) = []"
    using T1[THEN conjunct1] a by blast
  have d: "\<exists>c'. publishRepoEvents demo_io_env (demo_template ''a'', demo_template ''s'') demo_ctx0
            = Some (Inl EventIOCannotSignRepoEvents, c')"
    using T1 by (simp add: demo_io_env_def demo_io_host_sel) blast
  have s: "onPublishEvent demo_sign_only_host = None"
    "onSignEvent demo_sign_only_host = Some (\<lambda>t. Inr (demo_sign t ''me''))"
    "abortAfter demo_sign_only_host = None" "eventIO demo_sign_only_host = None"
    by (simp_all add: demo_sign_only_host_def demo_host_def)
  have e: "\<exists>e c. importRepository 5 demo_sign_only_host False ''https://github.com/alice/demo''
               ''token'' demo_config = Some (Inl e, c) \<and> filter isPublication (trace c) = []"
    using T2[THEN conjunct1] s(1) by blast
  have f: "\<exists>c'. publishRepoEvents (demo_env0\<lparr>host := demo_sign_only_host\<rparr>)
              (demo_template ''a'', demo_template ''s'') demo_ctx0
            = Some (Inl PublishCallbackMissing, c')
          \<and> trace c' = [Progress PublishingRepoEvents None None, Signed (demo_template ''a''),
                         Signed (demo_template ''s'')]"
    using T2[THEN conjunct2, THEN conjunct2, THEN conjunct2, THEN conjunct1] s
    by (simp add: demo_ctx0_def newContext_def)
  have g: "\<exists>c'. publishRepoEvents demo_env0 (demo_template ''a'', demo_template ''s'') demo_ctx0
            = Some (Inr (demo_sign (demo_template ''a'') ''me'', demo_sign (demo_template ''s'') ''me''), c')
          \<and> trace c' = [Progress PublishingRepoEvents None None, Signed (demo_template ''a''),
                         Signed (demo_template ''s''),
                         Published (demo_sign (demo_template ''a'') ''me''),
                         Published (demo_sign (demo_template ''s'') ''me'')]"
    using T3[THEN conjunct2, THEN conjunct2, THEN conjunct2, THEN conjunct2]
    by (simp add: demo_env0_def demo_env_def demo_host_sel demo_ctx0_def newContext_def
          awaited_def)
  from a b c d s(1) e f g show ?thesis by blast
qed

text \<open>
  The claim as stated fails: a hook created with an \<^verbatim>\<open>EventIO\<close> and neither callback is
  accepted, but its run stops in \<^const>\<open>publishRepoEvents\<close> with the error that says an
  \<^verbatim>\<open>EventIO\<close> cannot be used for the repository events, and nothing is published.
\<close>

theorem eventio_only_run_fails:
  "useImportRepo demo_io_host = Inr ()
   \<and> eventIO demo_io_host \<noteq> None \<and> onSignEvent demo_io_host = None
   \<and> onPublishEvent demo_io_host = None
   \<and> map_option fst
        (importRepository 5 demo_io_host False ''https://github.com/alice/demo'' ''token''
           demo_config)
       = Some (Inl EventIOCannotSignRepoEvents)
   \<and> map_option (filter isPublication \<circ> trace \<circ> snd)
        (importRepository 5 demo_io_host False ''https://github.com/alice/demo'' ''token''
           demo_config)
       = Some []"
proof -
  have "filter isPublication (trace ((demo_resolved demo_io_host)
          \<lparr>trace := trace (demo_resolved demo_io_host)
                     @ [Progress ConvertingRepo None None, Progress PublishingRepoEvents None None],
           checkpoints := 10\<rparr>)) = []"
    by (simp add: demo_resolved_def newContext_def)
  then show ?thesis
    by (simp add: importRepository_def useImportRepo_def demo_io_host_sel demo_io_run)
qed

section \<open>Flushing an empty queue\<close>












section \<open>Profiles and bridged identities are written once per key\<close>


lemma transp_appendOnly [simp]: "transp (appendOnly g)"
proof (rule transpI)
  fix x y z :: ctx
  assume "appendOnly g x y" "appendOnly g y z"
  then obtain n1 n2 where 1: "g y = g x @ n1" "distinct (map fst n1)" "fst ` set n1 \<inter> fst ` set (g x) = {}"
    and 2: "g z = g y @ n2" "distinct (map fst n2)" "fst ` set n2 \<inter> fst ` set (g y) = {}"
    by (auto simp: appendOnly_def)
  have "g z = g x @ (n1 @ n2)" using 1 2 by simp
  moreover have "distinct (map fst (n1 @ n2))" using 1 2 by auto
  moreover have "fst ` set (n1 @ n2) \<inter> fst ` set (g x) = {}" using 1 2 by auto
  ultimately show "appendOnly g x z" unfolding appendOnly_def by blast
qed


lemma transp_profilesAppendOnly [simp]: "transp profilesAppendOnly"
  by (rule transpI) (auto simp: profilesAppendOnly_def dest: transpD[OF transp_appendOnly])

lemma appendOnly_map_le: "appendOnly g c c' \<Longrightarrow> map_of (g c) \<subseteq>\<^sub>m map_of (g c')"
  by (auto simp: appendOnly_def map_le_def map_add_def split: option.splits)

lemma appendOnly_kept:
  "appendOnly g c c' \<Longrightarrow> map_of (g c) k = Some v \<Longrightarrow> map_of (g c') k = Some v"
  by (drule appendOnly_map_le) (auto simp: map_le_def dom_def)





lemma reflp_touchesOnly [simp]: "reflp (touchesOnly k)"
  by (simp add: reflp_def touchesOnly_def)

lemma transp_touchesOnly [simp]: "transp (touchesOnly k)"
  by (rule transpI) (auto simp: touchesOnly_def)


lemma ignoresIO_bridged [simp]: "ignoresIO bridgedNostrPubkeys"
  by (simp add: ignoresIO_def)




lemma ignoresIO_profiles [simp]:
  "ignoresIO (\<lambda>c. (userProfiles c, profileEvents c))"
  "ignoresCaches (\<lambda>c. (userProfiles c, profileEvents c))"
  by (simp_all add: ignoresIO_def ignoresCaches_def)







lemma transp_writtenOnce [simp]: "transp writtenOnce"
  by (rule transpI)
     (auto simp: writtenOnce_def dest: transpD[OF transp_appendOnly]
        transpD[OF transp_profilesAppendOnly])




lemma writtenOnce_present:
  assumes "writtenOnce c c'" "profilesInStep c" "map_of (userProfiles c) k \<noteq> None"
  shows "map_of (userProfiles c') k \<noteq> None"
proof -
  from assms(3) obtain v where "map_of (userProfiles c) k = Some v" by auto
  moreover have "appendOnly userProfiles c c'"
    using assms(1,2) by (simp add: writtenOnce_def profilesAppendOnly_def)
  ultimately show ?thesis using appendOnly_kept by fastforce
qed



















section \<open>The bridged identity tag\<close>

lemma ignoresIO_allMaps [simp]: "ignoresIO allMaps"
  by (simp add: ignoresIO_def allMaps_def)





















































section \<open>Orphan comments are skipped\<close>

lemma parentKnown_cong: "idMaps c' = idMaps c \<Longrightarrow> parentKnown c' = parentKnown c"
  by (rule ext) (simp add: parentKnown_def hasParent_def idMaps_def split: option.splits)

lemma reflp_parentsKnown [simp]: "reflp parentsKnown"
  by (simp add: reflp_def parentsKnown_def reflpD[OF reflp_extends])

lemma transp_parentsKnown [simp]: "transp parentsKnown"
proof (rule transpI)
  fix x y z assume a: "parentsKnown x y" "parentsKnown y z"
  then have e: "parentKnown y = parentKnown x"
    by (intro parentKnown_cong) (simp add: parentsKnown_def)
  have "extends (parentKnown x) x y" "extends (parentKnown x) y z"
    using a e by (simp_all add: parentsKnown_def)
  then have "extends (parentKnown x) x z" by (rule transpD[OF transp_extends])
  moreover have "idMaps z = idMaps x" using a by (simp add: parentsKnown_def)
  ultimately show "parentsKnown x z" by (simp add: parentsKnown_def)
qed

lemma reflp_onlyParent [simp]: "reflp (onlyParent p)"
  by (simp add: reflp_def onlyParent_def reflpD[OF reflp_extends])

lemma transp_onlyParent [simp]: "transp (onlyParent p)"
proof (rule transpI)
  fix x y z assume a: "onlyParent p x y" "onlyParent p y z"
  then have "extends (forParent p) x y" "extends (forParent p) y z"
    by (simp_all add: onlyParent_def)
  then have "extends (forParent p) x z" by (rule transpD[OF transp_extends])
  moreover have "idMaps z = idMaps x" using a by (simp add: onlyParent_def)
  ultimately show "onlyParent p x z" by (simp add: onlyParent_def)
qed

lemma ignoresIO_idMaps [simp]: "ignoresIO idMaps"
  by (simp add: ignoresIO_def idMaps_def)

lemma ignoresCaches_idMaps [simp]: "ignoresCaches idMaps"
  by (simp add: ignoresCaches_def idMaps_def)

lemma ignoresProfiles_idMaps [simp]: "ignoresProfiles idMaps"
  by (simp add: ignoresProfiles_def idMaps_def)

lemma ext_request:
  "P (Request req) \<Longrightarrow> steps (extends P) (withRateLimit env req outcome)"
  unfolding withRateLimit_def
  by (intro steps_intros ext_throwIfAborted ext_callOut) simp_all

lemma ext_progress: "P (Progress s a b) \<Longrightarrow> steps (extends P) (updateProgress s a b)"
  by (simp add: updateProgress_def ext_logEffect)

lemma ext_lookup_any:
  assumes "\<And>i. P (FetchEvents i)" "\<And>g. P (Request (ReqGist g))"
  shows "steps (extends P) (lookupNip39BridgedPubkey env pl u)"
  unfolding lookupNip39BridgedPubkey_def lookupProfileProof_def verifyGitHubGistProof_def Let_def
  by (intro steps_intros ext_callOut ext_request ext_modify) (simp_all add: assms)

lemma ext_ensure_any:
  assumes "\<And>i. P (FetchEvents i)" "\<And>g. P (Request (ReqGist g))"
  shows "steps (extends P) (ensureUserProfile env u a)"
  unfolding ensureUserProfile_def Let_def
  by (intro steps_intros ext_lookup_any ext_modify) (simp_all add: assms)

lemma onlyParentI:
  "steps (keeps idMaps) m \<Longrightarrow> steps (extends (forParent p)) m \<Longrightarrow> steps (onlyParent p) m"
  by (simp add: steps_def onlyParent_def keeps_def)

lemma only_publishComment: "steps (onlyParent p) (publishComment env p cm pe st)"
proof (rule onlyParentI)
  show "steps (keeps idMaps) (publishComment env p cm pe st)"
    unfolding publishComment_def Let_def
    by (intro steps_intros keeps_ensureUserProfile keeps_logEffect keeps_publishEventBatched
          keeps_modify) (simp_all add: idMaps_def)
  show "steps (extends (forParent p)) (publishComment env p cm pe st)"
    unfolding publishComment_def Let_def
    by (intro steps_intros ext_ensure_any ext_logEffect ext_enqueue_any ext_modify)
       (simp_all add: forParent_def)
qed

lemma onlyParent_known: "onlyParent p c c' \<Longrightarrow> hasParent c p \<Longrightarrow> parentsKnown c c'"
  by (auto simp: onlyParent_def parentsKnown_def extends_def forParent_def parentKnown_def
           list_all_iff split: option.splits)

lemma knownI:
  "steps (keeps idMaps) m \<Longrightarrow> steps (extends (\<lambda>e. commentParent e = None)) m
   \<Longrightarrow> steps parentsKnown m"
proof (rule stepsI)
  fix c r c'
  assume a: "steps (keeps idMaps) m" "steps (extends (\<lambda>e. commentParent e = None)) m"
    and run: "m c = Some (r, c')"
  from stepsD[OF a(2) run] obtain new where
    n: "trace c' = trace c @ new" "list_all (\<lambda>e. commentParent e = None) new"
    by (auto simp: extends_def)
  have "list_all (parentKnown c) new"
    using n(2) by (simp add: list_all_iff parentKnown_def)
  then show "parentsKnown c c'"
    using stepsD[OF a(1) run] n(1) by (auto simp: parentsKnown_def keeps_def extends_def)
qed

lemmas known_leaves =
  knownI[OF keeps_throwIfAborted[OF ignoresIO_idMaps] ext_throwIfAborted]
  knownI[OF keeps_updateProgress[OF ignoresIO_idMaps] ext_progress]
  knownI[OF keeps_withRateLimit[OF ignoresIO_idMaps] ext_request]
  knownI[OF keeps_flushEventQueue[OF ignoresIO_idMaps] ext_flush_any]

lemmas only_leaves =
  onlyParentI[OF keeps_throwIfAborted[OF ignoresIO_idMaps] ext_throwIfAborted]
  onlyParentI[OF keeps_withRateLimit[OF ignoresIO_idMaps] ext_request]

lemma orphan_bulk_comment:
  assumes "\<not> hasParent c (issueNumber cm)"
  shows "processBulkComment env issueNumbers prNumbers cm st c
         = bindM (throwIfAborted (host env)) (\<lambda>_. returnM st) c"
  using assms
  by (auto simp: processBulkComment_def hasParent_def bindM_def throwIfAborted_def getCtx_def
        returnM_def Let_def)

lemma orphan_parent:
  assumes "ignoresIO idMap" "map_of (idMap c) parentNo = None"
  shows "processParent fuel env idMap req listFor parentNo st c
         = bindM (throwIfAborted (host env)) (\<lambda>_. returnM st) c"
proof -
  have "idMap (c\<lparr>checkpoints := Suc (checkpoints c)\<rparr>) = idMap c"
    using assms(1) by (simp add: ignoresIO_def)
  then show ?thesis
    using assms(2)
    by (simp add: processParent_def bindM_def throwIfAborted_def getCtx_def returnM_def)
qed

lemma known_processBulkComment:
  "steps parentsKnown (processBulkComment env issueNumbers prNumbers cm st)"
  unfolding processBulkComment_def Let_def
proof (intro steps_bind_getCtx steps_bindM known_leaves steps_if steps_returnM)
  fix c
  show "stepsAt c parentsKnown
          (case if issueNumber cm \<in> set prNumbers then map_of (prEventIdMap c) (issueNumber cm)
                else map_of (issueEventIdMap c) (issueNumber cm) of
             None \<Rightarrow> returnM st
           | Some parentEventId \<Rightarrow>
               if parentEventId = [] then returnM st
               else publishComment env (issueNumber cm) (bulk_comment cm) parentEventId st)"
    unfolding stepsAt_def
  proof (intro allI impI)
    fix r c'
    assume run: "(case if issueNumber cm \<in> set prNumbers
                    then map_of (prEventIdMap c) (issueNumber cm)
                    else map_of (issueEventIdMap c) (issueNumber cm) of
             None \<Rightarrow> returnM st
           | Some parentEventId \<Rightarrow>
               if parentEventId = [] then returnM st
               else publishComment env (issueNumber cm) (bulk_comment cm) parentEventId st) c
           = Some (r, c')"
    show "parentsKnown c c'"
    proof (cases "hasParent c (issueNumber cm)")
      case False
      then have "c' = c"
        using run by (auto simp: hasParent_def returnM_def split: if_splits)
      then show ?thesis by (simp add: reflpD[OF reflp_parentsKnown])
    next
      case True
      from run have "c' = c \<or> (\<exists>pe. publishComment env (issueNumber cm) (bulk_comment cm) pe st c
                                    = Some (r, c'))"
        by (auto simp: returnM_def split: option.splits if_splits)
      then show ?thesis
        using True
        by (auto simp: reflpD[OF reflp_parentsKnown]
                 dest!: stepsD[OF only_publishComment] intro: onlyParent_known)
    qed
  qed
qed simp_all

lemma known_bulkCommentsPage:
  "steps parentsKnown (bulkCommentsPage env listAll issueNumbers prNumbers st)"
  unfolding bulkCommentsPage_def
  by (intro steps_intros known_leaves known_processBulkComment) simp_all

lemma only_parentCommentsPage:
  assumes "\<And>a b. commentParent (Request (req p a b)) = Some p"
  shows "steps (onlyParent p) (parentCommentsPage env req listFor p pe st)"
  unfolding parentCommentsPage_def processParentComment_def
  by (intro steps_intros only_leaves only_publishComment) (simp_all add: forParent_def assms)

lemma known_processParent:
  assumes known: "\<And>c n. map_of (idMap c) n \<noteq> None \<Longrightarrow> hasParent c n"
    and req: "\<And>n a b. commentParent (Request (req n a b)) = Some n"
  shows "steps parentsKnown (processParent fuel env idMap req listFor parentNo st)"
  unfolding processParent_def
proof (intro steps_bind_getCtx steps_bindM known_leaves)
  fix c
  show "stepsAt c parentsKnown
          (case map_of (idMap c) parentNo of
             None \<Rightarrow> returnM st
           | Some parentEventId \<Rightarrow>
               if parentEventId = [] then returnM st
               else bindM (whileM fuel (parentCommentsPage env req listFor parentNo parentEventId)
                             (1, st))
                      (\<lambda>acc. returnM ([], snd acc)))"
  proof (cases "map_of (idMap c) parentNo")
    case None
    then show ?thesis
      by (simp add: stepsAt_def returnM_def reflpD[OF reflp_parentsKnown])
  next
    case (Some pe)
    have st: "steps (onlyParent parentNo)
            (if pe = [] then returnM st
             else bindM (whileM fuel (parentCommentsPage env req listFor parentNo pe) (1, st))
                    (\<lambda>acc. returnM ([], snd acc)))"
      by (intro steps_intros only_parentCommentsPage) (simp_all add: req)
    have hp: "hasParent c parentNo" using Some by (intro known) simp
    show ?thesis
      unfolding stepsAt_def
    proof (intro allI impI)
      fix r c'
      assume "(case map_of (idMap c) parentNo of
                 None \<Rightarrow> returnM st
               | Some parentEventId \<Rightarrow>
                   if parentEventId = [] then returnM st
                   else bindM (whileM fuel
                                 (parentCommentsPage env req listFor parentNo parentEventId)
                                 (1, st))
                          (\<lambda>acc. returnM ([], snd acc))) c = Some (r, c')"
      then have "(if pe = [] then returnM st
             else bindM (whileM fuel (parentCommentsPage env req listFor parentNo pe) (1, st))
                    (\<lambda>acc. returnM ([], snd acc))) c = Some (r, c')"
        by (simp only: Some option.case)
      then have "onlyParent parentNo c c'" by (rule stepsD[OF st])
      then show "parentsKnown c c'" using hp by (rule onlyParent_known)
    qed
  qed
qed simp_all

lemma known_comments:
  "steps parentsKnown (fetchAndPublishCommentsStreaming fuel env issueNumbers prNumbers)"
  unfolding fetchAndPublishCommentsStreaming_def
  by (intro steps_intros known_leaves known_bulkCommentsPage known_processParent)
     (simp_all add: hasParent_def)

lemma demo_comments_run:
  "\<exists>c'. fetchAndPublishCommentsStreaming 2 demo_comments_env [1] [] demo_comments_ctx
           = Some (Inr 1, c')
        \<and> filter (\<lambda>e. commentParent e \<noteq> None) (trace c')
            = [Converted (CommentItem 1 ''c1'') 0 1]"
  by (simp add: fetchAndPublishCommentsStreaming_def demo_comments_env_def demo_comments_ctx_def
        demo_defs demo_api_def demo_lib_def demo_comment_def demo_sign_def paginate_def
        bulkCommentsPage_def processBulkComment_def publishComment_def ensureUserProfile_def
        lookupNip39BridgedPubkey_def fetchEventsOf_def filterSince_def addBridgedPTags_def
        publishEventBatched_def flushEventQueue_def handOver_def monad_defs Let_def numeral_2_eq_2
        split: option.splits)

text \<open>
  Claim C8. A comment whose parent number is in neither id map is never converted, signed,
  enqueued or published. Under the bulk strategy, processing such a comment is the abort
  check and nothing else. Under the fallback strategy the comments of a number that the
  issue map (in the loop over the issues) or the pull request map (in the loop over the pull
  requests) does not hold are not even requested: processing the number is the abort check
  and nothing else. Along every run of the comment pipeline, under either strategy, the id
  maps stay as they are, and every comment handed to the converter and every per-parent
  request is for a parent one of the id maps holds.
\<close>

theorem orphan_comments_are_skipped:
  "(\<not> hasParent c (issueNumber cm) \<longrightarrow>
      processBulkComment env issueNumbers prNumbers cm st c
      = bindM (throwIfAborted (host env)) (\<lambda>_. returnM st) c)
   \<and> (map_of (issueEventIdMap c) n = None \<longrightarrow>
        processParent fuel env issueEventIdMap ReqListIssueComments
          (listIssueComments (api env)) n st c
        = bindM (throwIfAborted (host env)) (\<lambda>_. returnM st) c)
   \<and> (map_of (prEventIdMap c) n = None \<longrightarrow>
        processParent fuel env prEventIdMap ReqListPullRequestComments
          (listPullRequestComments (api env)) n st c
        = bindM (throwIfAborted (host env)) (\<lambda>_. returnM st) c)
   \<and> steps parentsKnown (fetchAndPublishCommentsStreaming fuel env issueNumbers prNumbers)"
proof (intro conjI impI)
  assume "\<not> hasParent c (issueNumber cm)"
  then show "processBulkComment env issueNumbers prNumbers cm st c
             = bindM (throwIfAborted (host env)) (\<lambda>_. returnM st) c"
    by (rule orphan_bulk_comment)
next
  assume "map_of (issueEventIdMap c) n = None"
  then show "processParent fuel env issueEventIdMap ReqListIssueComments
               (listIssueComments (api env)) n st c
             = bindM (throwIfAborted (host env)) (\<lambda>_. returnM st) c"
    by (intro orphan_parent) (simp_all add: ignoresIO_def)
next
  assume "map_of (prEventIdMap c) n = None"
  then show "processParent fuel env prEventIdMap ReqListPullRequestComments
               (listPullRequestComments (api env)) n st c
             = bindM (throwIfAborted (host env)) (\<lambda>_. returnM st) c"
    by (intro orphan_parent) (simp_all add: ignoresIO_def)
next
  show "steps parentsKnown (fetchAndPublishCommentsStreaming fuel env issueNumbers prNumbers)"
    by (rule known_comments)
qed

theorem orphan_comments_are_skipped_witness:
  "\<not> hasParent demo_comments_ctx (issueNumber (demo_comment ''c2'' 7))
   \<and> processBulkComment demo_comments_env [1] [] (demo_comment ''c2'' 7) ([], 0)
        demo_comments_ctx
      = Some (Inr ([], 0), demo_comments_ctx\<lparr>checkpoints := 1\<rparr>)
   \<and> (\<exists>c'. fetchAndPublishCommentsStreaming 2 demo_comments_env [1] [] demo_comments_ctx
              = Some (Inr 1, c')
         \<and> parentsKnown demo_comments_ctx c'
         \<and> filter (\<lambda>e. commentParent e \<noteq> None) (trace c')
             = [Converted (CommentItem 1 ''c1'') 0 1])"
proof -
  have h: "\<not> hasParent demo_comments_ctx (issueNumber (demo_comment ''c2'' 7))"
    by (simp add: hasParent_def demo_comments_ctx_def demo_comment_def demo_defs)
  note t = orphan_comments_are_skipped[of demo_comments_ctx "demo_comment ''c2'' 7"
      demo_comments_env "[1]" "[]" "([], 0)" 0 2]
  have a: "processBulkComment demo_comments_env [1] [] (demo_comment ''c2'' 7) ([], 0)
             demo_comments_ctx
           = Some (Inr ([], 0), demo_comments_ctx\<lparr>checkpoints := 1\<rparr>)"
    using t[THEN conjunct1] h
    by (simp add: bindM_def throwIfAborted_def returnM_def demo_comments_env_def
          demo_comments_ctx_def demo_defs)
  have b: "\<exists>c'. fetchAndPublishCommentsStreaming 2 demo_comments_env [1] [] demo_comments_ctx
              = Some (Inr 1, c')
         \<and> parentsKnown demo_comments_ctx c'
         \<and> filter (\<lambda>e. commentParent e \<noteq> None) (trace c')
             = [Converted (CommentItem 1 ''c1'') 0 1]"
    using demo_comments_run
      stepsD[OF t[THEN conjunct2, THEN conjunct2, THEN conjunct2]] by blast
  from h a b show ?thesis by simp
qed

section \<open>When the batched publisher flushes\<close>














end
